theory Spec2Isabelle
  imports Main
begin

section \<open>Values, requests and responses\<close>

text \<open>
  The embedding follows the TypeScript sources file by file: \<open>utils\<close> (token service,
  validators, short-code generator, response helpers), \<open>db\<close> (the prepared statements),
  \<open>middleware\<close>, \<open>routes\<close> (the router and the route table), the two controllers
  and the server entry point.

  A thrown JavaScript error is a value of \<open>exn\<close> carrying its message. A handler or a
  middleware returns either a thrown error or a response, together with the world it
  leaves behind: writes made before a \<open>throw\<close> stay in place, as they do in the program.
\<close>

datatype exn = Error string | TypeError string | RangeError string | SqliteError string

fun message :: "exn \<Rightarrow> string" where
  "message (Error m) = m"
| "message (TypeError m) = m"
| "message (RangeError m) = m"
| "message (SqliteError m) = m"

text \<open>
  The JSON body of a request, as the controllers use it: they destructure the fields
  below from \<open>ctx.body\<close>. A field that is missing (or \<open>null\<close>) is \<open>None\<close>. The string fields
  are taken to be JSON strings and \<open>expiresInDays\<close> a JSON integer, as the API documents
  them. \<open>JNull\<close> is the JSON text \<open>null\<close>, which parses without error.
\<close>

record fields =
  username_field :: "string option"
  email_field :: "string option"
  password_field :: "string option"
  url_field :: "string option"
  customCode_field :: "string option"
  expiresInDays_field :: "int option"

datatype json = JNull | JObject fields

text \<open>
  A request: method, the path name of its URL, its headers (looked up by lower-case
  name, as \<open>Headers.get\<close> ignores case) and what \<open>req.json()\<close> yields: \<open>None\<close> when
  the text is not JSON and the call throws.
\<close>

record request =
  http_method :: string
  pathname :: string
  headers :: "string \<rightharpoonup> string"
  json_text :: "json option"

record jwt_payload =
  userId :: nat
  username :: string

record ctx =
  req :: request
  user :: "jwt_payload option"
  params :: "(string \<rightharpoonup> string) option"
  body :: "json option"

text \<open>Rows of the three tables. Times are time values in milliseconds.\<close>

record users_row =
  users_id :: nat
  users_username :: string
  users_email :: string
  password_hash :: string
  users_created_at :: int

record urls_row =
  urls_id :: nat
  short_code :: string
  original_url :: string
  user_id :: "nat option"
  clicks :: nat
  created_at :: int
  expires_at :: "int option"

record analytics_row =
  analytics_id :: nat
  url_id :: nat
  user_agent :: "string option"
  referer :: "string option"
  ip_address :: string
  clicked_at :: int

record rate_record =
  count :: int
  resetAt :: int

text \<open>
  The world a request runs in: the three tables with their \<open>AUTOINCREMENT\<close> counters,
  the in-memory map of the rate limiter, the system clock, and the values that the
  coming calls of \<open>Math.floor(Math.random() * characters.length)\<close> will return.
\<close>

record world =
  users :: "users_row list"
  urls :: "urls_row list"
  analytics :: "analytics_row list"
  users_seq :: nat
  urls_seq :: nat
  analytics_seq :: nat
  rateLimitStore :: "string \<rightharpoonup> rate_record"
  clock :: int
  random :: "nat \<Rightarrow> nat"

text \<open>Bodies of responses. \<open>Failure\<close> is the JSON object \<open>{success: false, error, statusCode?}\<close>.\<close>

datatype data =
    DNull
  | DAuth nat string string string
  | DProfile nat string string int
  | DCreated string string string "int option"
  | DUrls "(urls_row \<times> string) list"
  | DAnalytics string nat "(int \<times> nat) list"

datatype content =
    NoContent
  | Text string
  | Html
  | Health int
  | Success string data
  | Failure string "nat option"

datatype hval = HStr string | HNum int | HTime int

record response =
  status :: nat
  content :: content
  resp_headers :: "string \<rightharpoonup> hval"

type_synonym result = "(exn + response) \<times> world"
type_synonym handler = "ctx \<Rightarrow> world \<Rightarrow> result"
type_synonym middleware = "ctx \<Rightarrow> handler \<Rightarrow> world \<Rightarrow> result"

text \<open>
  The functions of the platform and its libraries that the program calls, and the
  environment it reads: \<open>url_protocol\<close> is the protocol of \<open>new URL(url)\<close>, or nothing
  when the constructor throws; the two rate-limit settings are the parsed numbers.
\<close>

record platform =
  bcrypt_hash :: "string \<Rightarrow> string"
  bcrypt_compare :: "string \<Rightarrow> string \<Rightarrow> bool"
  jwt_sign :: "jwt_payload \<Rightarrow> string"
  jwt_verify :: "string \<Rightarrow> exn + jwt_payload"
  url_protocol :: "string \<Rightarrow> string option"
  BASE_URL :: "string option"
  CORS_ORIGIN :: "string option"
  API_RATE_LIMIT :: int
  RATE_LIMIT_WINDOW :: int

text \<open>\<open>Response.json(x, {status})\<close>, \<open>new Response(text, {status})\<close> and \<open>Response.redirect\<close>.\<close>

definition Response_json :: "content \<Rightarrow> nat \<Rightarrow> response" where
  "Response_json c st =
     \<lparr>status = st, content = c,
      resp_headers = [''content-type'' \<mapsto> HStr ''application/json'']\<rparr>"

definition Response_text :: "string \<Rightarrow> nat \<Rightarrow> response" where
  "Response_text t st =
     \<lparr>status = st, content = Text t,
      resp_headers = [''content-type'' \<mapsto> HStr ''text/plain;charset=utf-8'']\<rparr>"

definition Response_redirect :: "string \<Rightarrow> nat \<Rightarrow> response" where
  "Response_redirect u st =
     \<lparr>status = st, content = NoContent, resp_headers = [''location'' \<mapsto> HStr u]\<rparr>"

text \<open>JavaScript truthiness of an optional string and of an optional number.\<close>

fun truthy :: "string option \<Rightarrow> bool" where
  "truthy None = False"
| "truthy (Some s) = (s \<noteq> [])"

fun truthy_num :: "int option \<Rightarrow> bool" where
  "truthy_num None = False"
| "truthy_num (Some n) = (n \<noteq> 0)"

text \<open>\<open>s.split(c)\<close> for a one-character separator: the pieces between separators, empty ones kept.\<close>

fun split :: "char \<Rightarrow> string \<Rightarrow> string list" where
  "split c [] = [[]]"
| "split c (x # xs) =
     (if x = c then [] # split c xs
      else (case split c xs of p # ps \<Rightarrow> (x # p) # ps | [] \<Rightarrow> [[x]]))"

section \<open>utils: token service, validators, short codes, response helpers\<close>

definition verifyToken :: "platform \<Rightarrow> string \<Rightarrow> jwt_payload option" where
  "verifyToken P token = (case jwt_verify P token of Inr decoded \<Rightarrow> Some decoded | Inl e \<Rightarrow> None)"

definition extractTokenFromHeader :: "string option \<Rightarrow> string option" where
  "extractTokenFromHeader authHeader =
     (case authHeader of
        None \<Rightarrow> None
      | Some h \<Rightarrow>
          if h = [] then None
          else (let parts = split CHR '' '' h in
                if length parts \<noteq> 2 \<or> parts ! 0 \<noteq> ''Bearer'' then None
                else Some (parts ! 1)))"

definition is_upper :: "char \<Rightarrow> bool" where
  "is_upper c = (65 \<le> (of_char c :: nat) \<and> (of_char c :: nat) \<le> 90)"

definition is_lower :: "char \<Rightarrow> bool" where
  "is_lower c = (97 \<le> (of_char c :: nat) \<and> (of_char c :: nat) \<le> 122)"

definition is_digit :: "char \<Rightarrow> bool" where
  "is_digit c = (48 \<le> (of_char c :: nat) \<and> (of_char c :: nat) \<le> 57)"

text \<open>The class \<open>\s\<close> on the one-byte characters of the model.\<close>

definition is_space :: "char \<Rightarrow> bool" where
  "is_space c = ((of_char c :: nat) \<in> {9, 10, 11, 12, 13, 32, 160})"

text \<open>
  \<open>/^[^\s@]+@[^\s@]+\.[^\s@]+$/\<close>: no white space, exactly one \<open>@\<close> with something before
  it, and after it a dot that is neither the first nor the last character.
\<close>

definition isValidEmail :: "string \<Rightarrow> bool" where
  "isValidEmail email =
     (let name = takeWhile (\<lambda>c. c \<noteq> CHR ''@'') email;
          rest = dropWhile (\<lambda>c. c \<noteq> CHR ''@'') email
      in list_all (\<lambda>c. \<not> is_space c) email \<and> name \<noteq> [] \<and> rest \<noteq> [] \<and>
         CHR ''@'' \<notin> set (tl rest) \<and> CHR ''.'' \<in> set (butlast (tl (tl rest))))"

definition isValidPassword :: "string \<Rightarrow> bool" where
  "isValidPassword password =
     (length password \<ge> 8 \<and> list_ex is_upper password \<and> list_ex is_lower password \<and>
      list_ex is_digit password)"

definition isValidUrl :: "platform \<Rightarrow> string \<Rightarrow> bool" where
  "isValidUrl P url =
     (case url_protocol P url of
        None \<Rightarrow> False
      | Some protocol \<Rightarrow> protocol = ''http:'' \<or> protocol = ''https:'')"

definition isValidUsername :: "string \<Rightarrow> bool" where
  "isValidUsername name =
     (3 \<le> length name \<and> length name \<le> 20 \<and>
      list_all (\<lambda>c. is_lower c \<or> is_upper c \<or> is_digit c \<or> c = CHR ''_'') name)"

definition characters :: string where
  "characters = ''abcdefghijklmnopqrstuvwxyzABCDEFGHIJKLMNOPQRSTUVWXYZ0123456789''"

definition charAt :: "string \<Rightarrow> nat \<Rightarrow> string" where
  "charAt s i = (if i < length s then [s ! i] else [])"

text \<open>\<open>generateShortCode(length)\<close> draws \<open>length\<close> random indices and uses them up.\<close>

definition generateShortCode :: "nat \<Rightarrow> world \<Rightarrow> string \<times> world" where
  "generateShortCode len w =
     (concat (map (\<lambda>i. charAt characters (random w i)) [0..<len]),
      w\<lparr>random := (\<lambda>i. random w (i + len))\<rparr>)"

definition successResponse :: "data \<Rightarrow> string \<Rightarrow> content" where
  "successResponse d msg = Success msg d"

text \<open>\<open>errorResponse(message, statusCode = 400)\<close>; every caller leaves the default.\<close>

definition errorResponse :: "string \<Rightarrow> content" where
  "errorResponse msg = Failure msg (Some 400)"

text \<open>
  Dates. A \<open>Date\<close> holds a time value, or none when it is invalid; time values beyond
  8.64e15 ms on either side of the epoch are invalid (\<open>TimeClip\<close>). The process is taken to
  run in UTC, where \<open>setDate(getDate() + n)\<close> moves the time value by \<open>n\<close> days of 86400000 ms.
  \<open>toISOString\<close> throws a \<open>RangeError\<close> on an invalid date; the ISO text it returns
  otherwise is represented by the time value it denotes.
\<close>

definition TimeClip :: "int \<Rightarrow> int option" where
  "TimeClip t = (if \<bar>t\<bar> \<le> 8640000000000000 then Some t else None)"

definition setDate_plus :: "int \<Rightarrow> int \<Rightarrow> int option" where
  "setDate_plus now days = TimeClip (now + days * 86400000)"

definition toISOString :: "int option \<Rightarrow> exn + int" where
  "toISOString d = (case d of None \<Rightarrow> Inl (RangeError ''Invalid time value'') | Some t \<Rightarrow> Inr t)"

text \<open>The string of a field once it has been checked to be truthy.\<close>

fun str_of :: "string option \<Rightarrow> string" where
  "str_of None = []"
| "str_of (Some s) = s"

section \<open>db: the prepared statements\<close>

text \<open>
  Each statement is a function on the tables. \<open>UNIQUE\<close> columns make an insert throw.
  The program does not switch SQLite's foreign keys on, so a delete removes rows of its
  own table only.
\<close>

definition createUser :: "string \<Rightarrow> string \<Rightarrow> string \<Rightarrow> world \<Rightarrow> (exn + nat) \<times> world" where
  "createUser name email hash w =
     (if list_ex (\<lambda>r. users_username r = name \<or> users_email r = email) (users w)
      then (Inl (SqliteError ''UNIQUE constraint failed''), w)
      else (Inr (Suc (users_seq w)),
            w\<lparr>users := users w @
                  [\<lparr>users_id = Suc (users_seq w), users_username = name, users_email = email,
                    password_hash = hash, users_created_at = clock w\<rparr>],
              users_seq := Suc (users_seq w)\<rparr>))"

definition findUserByUsername :: "world \<Rightarrow> string \<Rightarrow> users_row option" where
  "findUserByUsername w name = find (\<lambda>r. users_username r = name) (users w)"

definition findUserByEmail :: "world \<Rightarrow> string \<Rightarrow> users_row option" where
  "findUserByEmail w email = find (\<lambda>r. users_email r = email) (users w)"

definition findUserById :: "world \<Rightarrow> nat \<Rightarrow> users_row option" where
  "findUserById w i = find (\<lambda>r. users_id r = i) (users w)"

definition createUrl ::
  "string \<Rightarrow> string \<Rightarrow> nat option \<Rightarrow> int option \<Rightarrow> world \<Rightarrow> (exn + nat) \<times> world" where
  "createUrl code url uid expiry w =
     (if list_ex (\<lambda>r. short_code r = code) (urls w)
      then (Inl (SqliteError ''UNIQUE constraint failed: urls.short_code''), w)
      else (Inr (Suc (urls_seq w)),
            w\<lparr>urls := urls w @
                  [\<lparr>urls_id = Suc (urls_seq w), short_code = code, original_url = url,
                    user_id = uid, clicks = 0, created_at = clock w, expires_at = expiry\<rparr>],
              urls_seq := Suc (urls_seq w)\<rparr>))"

definition findUrlByShortCode :: "world \<Rightarrow> string \<Rightarrow> urls_row option" where
  "findUrlByShortCode w code = find (\<lambda>r. short_code r = code) (urls w)"

definition incrementClicks :: "nat \<Rightarrow> world \<Rightarrow> world" where
  "incrementClicks i w =
     w\<lparr>urls := map (\<lambda>r. if urls_id r = i then r\<lparr>clicks := clicks r + 1\<rparr> else r) (urls w)\<rparr>"

definition getUserUrls :: "world \<Rightarrow> nat \<Rightarrow> urls_row list" where
  "getUserUrls w uid = rev (sort_key created_at (filter (\<lambda>r. user_id r = Some uid) (urls w)))"

text \<open>\<open>deleteUrl\<close> returns the number of rows it removed (\<open>changes\<close>).\<close>

definition deleteUrl :: "string \<Rightarrow> nat \<Rightarrow> world \<Rightarrow> nat \<times> world" where
  "deleteUrl code uid w =
     (length (filter (\<lambda>r. short_code r = code \<and> user_id r = Some uid) (urls w)),
      w\<lparr>urls := filter (\<lambda>r. \<not> (short_code r = code \<and> user_id r = Some uid)) (urls w)\<rparr>)"

definition logClick :: "nat \<Rightarrow> string option \<Rightarrow> string option \<Rightarrow> string \<Rightarrow> world \<Rightarrow> world" where
  "logClick i ua ref ip w =
     w\<lparr>analytics := analytics w @
           [\<lparr>analytics_id = Suc (analytics_seq w), url_id = i, user_agent = ua, referer = ref,
             ip_address = ip, clicked_at = clock w\<rparr>],
       analytics_seq := Suc (analytics_seq w)\<rparr>"

text \<open>Clicks per calendar day (the day number of the time value), latest day first, 30 at most.\<close>

definition getUrlAnalytics :: "world \<Rightarrow> nat \<Rightarrow> (int \<times> nat) list" where
  "getUrlAnalytics w i =
     (let days = map (\<lambda>r. clicked_at r div 86400000) (filter (\<lambda>r. url_id r = i) (analytics w))
      in take 30 (map (\<lambda>d. (d, count_list days d)) (rev (sort (remdups days)))))"

section \<open>middleware\<close>

text \<open>
  A middleware gets the context and the continuation \<open>next\<close>; the context it may have
  changed is what it hands to \<open>next\<close>. The logger only writes to the console.
\<close>

definition logger :: middleware where
  "logger ctx next w = next ctx w"

definition cors_origin :: "platform \<Rightarrow> string" where
  "cors_origin P = (if truthy (CORS_ORIGIN P) then str_of (CORS_ORIGIN P) else ''*'')"

definition cors :: "platform \<Rightarrow> middleware" where
  "cors P ctx next w =
     (if http_method (req ctx) = ''OPTIONS'' then
        (Inr \<lparr>status = 204, content = NoContent,
              resp_headers =
                [''access-control-allow-origin'' \<mapsto> HStr (cors_origin P),
                 ''access-control-allow-methods'' \<mapsto> HStr ''GET, POST, PUT, DELETE, OPTIONS'',
                 ''access-control-allow-headers'' \<mapsto> HStr ''Content-Type, Authorization'',
                 ''access-control-max-age'' \<mapsto> HStr ''86400'']\<rparr>, w)
      else
        (case next ctx w of
           (Inl e, w') \<Rightarrow> (Inl e, w')
         | (Inr response, w') \<Rightarrow>
             (Inr \<lparr>status = status response, content = content response,
                   resp_headers = (resp_headers response)
                     (''access-control-allow-origin'' \<mapsto> HStr (cors_origin P),
                      ''access-control-allow-methods'' \<mapsto> HStr ''GET, POST, PUT, DELETE, OPTIONS'',
                      ''access-control-allow-headers'' \<mapsto> HStr ''Content-Type, Authorization'')\<rparr>,
              w')))"

definition authenticate :: "platform \<Rightarrow> middleware" where
  "authenticate P ctx next w =
     (let authHeader = headers (req ctx) ''authorization'';
          token = extractTokenFromHeader authHeader
      in if \<not> truthy token then
           (Inr (Response_json (Failure ''No token provided'' None) 401), w)
         else
           (case verifyToken P (str_of token) of
              None \<Rightarrow> (Inr (Response_json (Failure ''Invalid or expired token'' None) 401), w)
            | Some payload \<Rightarrow>
                next (ctx\<lparr>user := Some \<lparr>userId = userId payload, username = username payload\<rparr>\<rparr>) w))"

definition client_ip :: "ctx \<Rightarrow> string" where
  "client_ip c =
     (if truthy (headers (req c) ''x-forwarded-for'') then str_of (headers (req c) ''x-forwarded-for'')
      else ''unknown'')"

text \<open>
  The 429 answer carries the reset time as ISO text, \<open>new Date(record.resetAt).toISOString()\<close>,
  which throws a \<open>RangeError\<close> when the reset time lies outside the range of \<open>Date\<close>; the
  error then leaves the limiter instead of the 429.
\<close>

definition rateLimit :: "int \<Rightarrow> int \<Rightarrow> middleware" where
  "rateLimit maxRequests windowMs ctx next w =
     (let ip = client_ip ctx; now = clock w in
      case rateLimitStore w ip of
        Some record \<Rightarrow>
          if now < resetAt record then
            (if count record \<ge> maxRequests then
               (case toISOString (TimeClip (resetAt record)) of
                  Inl error \<Rightarrow> (Inl error, w)
                | Inr reset \<Rightarrow>
                    (Inr \<lparr>status = 429,
                          content = Failure ''Too many requests. Please try again later.'' None,
                          resp_headers =
                            [''content-type'' \<mapsto> HStr ''application/json'',
                             ''x-ratelimit-limit'' \<mapsto> HNum maxRequests,
                             ''x-ratelimit-remaining'' \<mapsto> HStr ''0'',
                             ''x-ratelimit-reset'' \<mapsto> HTime reset]\<rparr>, w))
             else
               next ctx (w\<lparr>rateLimitStore :=
                  (rateLimitStore w)(ip \<mapsto> record\<lparr>count := count record + 1\<rparr>)\<rparr>))
          else
            next ctx (w\<lparr>rateLimitStore :=
               (rateLimitStore w)(ip \<mapsto> \<lparr>count = 1, resetAt = now + windowMs\<rparr>)\<rparr>)
      | None \<Rightarrow>
          next ctx (w\<lparr>rateLimitStore :=
             (rateLimitStore w)(ip \<mapsto> \<lparr>count = 1, resetAt = now + windowMs\<rparr>)\<rparr>))"

definition errorHandler :: middleware where
  "errorHandler ctx next w =
     (case next ctx w of
        (Inl error, w') \<Rightarrow> (Inr (Response_json (Failure (message error) None) 500), w')
      | (Inr response, w') \<Rightarrow> (Inr response, w'))"

definition str_includes :: "string \<Rightarrow> string \<Rightarrow> bool" where
  "str_includes s sub = list_ex (\<lambda>i. take (length sub) (drop i s) = sub) [0..<Suc (length s)]"

definition jsonParser :: middleware where
  "jsonParser ctx next w =
     (if http_method (req ctx) \<noteq> ''GET'' \<and> http_method (req ctx) \<noteq> ''DELETE'' then
        (case headers (req ctx) ''content-type'' of
           None \<Rightarrow> next ctx w
         | Some contentType \<Rightarrow>
             if str_includes contentType ''application/json'' then
               (case json_text (req ctx) of
                  None \<Rightarrow> (Inr (Response_json (Failure ''Invalid JSON body'' None) 400), w)
                | Some parsed \<Rightarrow> next (ctx\<lparr>body := Some parsed\<rparr>) w)
             else next ctx w)
      else next ctx w)"

text \<open>
  \<open>compose\<close> nests the middlewares, the first outermost. Every middleware above calls
  \<open>next\<close> at most once, so the guard against a second call never fires.
\<close>

fun compose :: "middleware list \<Rightarrow> middleware" where
  "compose [] ctx next w = next ctx w"
| "compose (m # ms) ctx next w = m ctx (\<lambda>ctx'. compose ms ctx' next) w"

section \<open>controllers/auth.controller\<close>

text \<open>
  Destructuring \<open>ctx.body\<close> throws a \<open>TypeError\<close> when the body is \<open>undefined\<close> or \<open>null\<close>;
  the statement stands before the \<open>try\<close> block.
\<close>

definition destructure :: "json option \<Rightarrow> exn + fields" where
  "destructure b =
     (case b of
        None \<Rightarrow> Inl (TypeError ''Right side of assignment cannot be destructured'')
      | Some JNull \<Rightarrow> Inl (TypeError ''Right side of assignment cannot be destructured'')
      | Some (JObject f) \<Rightarrow> Inr f)"

definition register :: "platform \<Rightarrow> handler" where
  "register P ctx w =
     (case destructure (body ctx) of
        Inl e \<Rightarrow> (Inl e, w)
      | Inr f \<Rightarrow>
          let username = username_field f; email = email_field f; password = password_field f in
          if \<not> truthy username \<or> \<not> truthy email \<or> \<not> truthy password then
            (Inr (Response_json (errorResponse ''All fields are required'') 400), w)
          else if \<not> isValidUsername (str_of username) then
            (Inr (Response_json (errorResponse
               ''Username must be 3-20 characters, alphanumeric and underscores only'') 400), w)
          else if \<not> isValidEmail (str_of email) then
            (Inr (Response_json (errorResponse ''Invalid email format'') 400), w)
          else if \<not> isValidPassword (str_of password) then
            (Inr (Response_json (errorResponse
               ''Password must be at least 8 characters with uppercase, lowercase, and number'') 400), w)
          else
            (case findUserByUsername w (str_of username) of
               Some existingUser \<Rightarrow>
                 (Inr (Response_json (errorResponse ''Username already exists'') 409), w)
             | None \<Rightarrow>
                 (case findUserByEmail w (str_of email) of
                    Some existingEmail \<Rightarrow>
                      (Inr (Response_json (errorResponse ''Email already exists'') 409), w)
                  | None \<Rightarrow>
                      (case createUser (str_of username) (str_of email)
                              (bcrypt_hash P (str_of password)) w of
                         (Inl error, w') \<Rightarrow>
                           (Inr (Response_json (errorResponse ''Failed to register user'') 500), w')
                       | (Inr uid, w') \<Rightarrow>
                           (Inr (Response_json
                              (successResponse
                                 (DAuth uid (str_of username) (str_of email)
                                    (jwt_sign P \<lparr>userId = uid, username = str_of username\<rparr>))
                                 ''User registered successfully'') 201), w')))))"

definition login :: "platform \<Rightarrow> handler" where
  "login P ctx w =
     (case destructure (body ctx) of
        Inl e \<Rightarrow> (Inl e, w)
      | Inr f \<Rightarrow>
          let username = username_field f; password = password_field f in
          if \<not> truthy username \<or> \<not> truthy password then
            (Inr (Response_json (errorResponse ''Username and password are required'') 400), w)
          else
            (case findUserByUsername w (str_of username) of
               None \<Rightarrow> (Inr (Response_json (errorResponse ''Invalid credentials'') 401), w)
             | Some u \<Rightarrow>
                 if \<not> bcrypt_compare P (str_of password) (password_hash u) then
                   (Inr (Response_json (errorResponse ''Invalid credentials'') 401), w)
                 else
                   (Inr (Response_json
                      (successResponse
                         (DAuth (users_id u) (users_username u) (users_email u)
                            (jwt_sign P \<lparr>userId = users_id u, username = users_username u\<rparr>))
                         ''Login successful'') 200), w)))"

definition getProfile :: handler where
  "getProfile ctx w =
     (case user ctx of
        None \<Rightarrow> (Inr (Response_json (errorResponse ''Unauthorized'') 401), w)
      | Some caller \<Rightarrow>
          (case findUserById w (userId caller) of
             None \<Rightarrow> (Inr (Response_json (errorResponse ''User not found'') 404), w)
           | Some u \<Rightarrow>
               (Inr (Response_json
                  (successResponse
                     (DProfile (users_id u) (users_username u) (users_email u) (users_created_at u))
                     ''Success'') 200), w)))"

section \<open>controllers/url.controller\<close>

text \<open>\<open>/^[a-zA-Z0-9_-]{3,20}$/\<close>\<close>

definition customCode_ok :: "string \<Rightarrow> bool" where
  "customCode_ok code =
     (3 \<le> length code \<and> length code \<le> 20 \<and>
      list_all (\<lambda>c. is_lower c \<or> is_upper c \<or> is_digit c \<or> c = CHR ''_'' \<or> c = CHR ''-'') code)"

text \<open>
  The loop that looks for an unused generated code: it returns the code, the number of
  attempts and the world with the random draws it has used up.
\<close>

function unique_loop :: "string \<Rightarrow> nat \<Rightarrow> world \<Rightarrow> string \<times> nat \<times> world" where
  "unique_loop shortCode attempts w =
     (if attempts < 10 then
        (case findUrlByShortCode w shortCode of
           None \<Rightarrow> (shortCode, attempts, w)
         | Some existing \<Rightarrow>
             (case generateShortCode 6 w of
                (shortCode', w') \<Rightarrow> unique_loop shortCode' (attempts + 1) w'))
      else (shortCode, attempts, w))"
  by pat_completeness auto
termination
  by (relation "measure (\<lambda>(shortCode, attempts, w). 10 - attempts)") auto

text \<open>
  The expiration date: \<open>null\<close> unless \<open>expiresInDays\<close> is truthy and positive, otherwise
  today moved by that many days, as ISO text; \<open>toISOString\<close> may throw.
\<close>

definition expiration :: "int \<Rightarrow> int option \<Rightarrow> exn + int option" where
  "expiration now expiresInDays =
     (case expiresInDays of
        None \<Rightarrow> Inr None
      | Some n \<Rightarrow>
          if truthy_num (Some n) \<and> n > 0 then
            (case toISOString (setDate_plus now n) of
               Inl e \<Rightarrow> Inl e
             | Inr text \<Rightarrow> Inr (Some text))
          else Inr None)"

definition baseUrl :: "platform \<Rightarrow> string" where
  "baseUrl P = (if truthy (BASE_URL P) then str_of (BASE_URL P) else ''http://localhost:3000'')"

text \<open>
  The rest of \<open>createShortUrl\<close> once the short code is settled: expiration date, owner,
  insert and the 201 response. Anything thrown here is caught and answered with a 500.
\<close>

definition insertShortUrl :: "platform \<Rightarrow> ctx \<Rightarrow> string \<Rightarrow> string \<Rightarrow> int option \<Rightarrow> world \<Rightarrow> result" where
  "insertShortUrl P ctx shortCode url expiresInDays w =
     (case expiration (clock w) expiresInDays of
        Inl error \<Rightarrow> (Inr (Response_json (errorResponse ''Failed to create short URL'') 500), w)
      | Inr expiresAt \<Rightarrow>
          let uid = (case user ctx of
                       None \<Rightarrow> None
                     | Some caller \<Rightarrow> if userId caller = 0 then None else Some (userId caller))
          in (case createUrl shortCode url uid expiresAt w of
                (Inl error, w') \<Rightarrow>
                  (Inr (Response_json (errorResponse ''Failed to create short URL'') 500), w')
              | (Inr rowid, w') \<Rightarrow>
                  (Inr (Response_json
                     (successResponse
                        (DCreated shortCode ((baseUrl P @ ''/'') @ shortCode) url expiresAt)
                        ''URL shortened successfully'') 201), w')))"

definition createShortUrl :: "platform \<Rightarrow> handler" where
  "createShortUrl P ctx w =
     (case destructure (body ctx) of
        Inl e \<Rightarrow> (Inl e, w)
      | Inr f \<Rightarrow>
          let url = url_field f; customCode = customCode_field f;
              expiresInDays = expiresInDays_field f in
          if \<not> truthy url then
            (Inr (Response_json (errorResponse ''URL is required'') 400), w)
          else if \<not> isValidUrl P (str_of url) then
            (Inr (Response_json (errorResponse ''Invalid URL format'') 400), w)
          else if truthy customCode then
            (if \<not> customCode_ok (str_of customCode) then
               (Inr (Response_json (errorResponse
                  ''Custom code must be 3-20 characters, alphanumeric, hyphens, and underscores only'')
                  400), w)
             else
               (case findUrlByShortCode w (str_of customCode) of
                  Some existing \<Rightarrow>
                    (Inr (Response_json (errorResponse ''Custom code already exists'') 409), w)
                | None \<Rightarrow> insertShortUrl P ctx (str_of customCode) (str_of url) expiresInDays w))
          else
            (case generateShortCode 6 w of
               (generated, w0) \<Rightarrow>
                 (case unique_loop generated 0 w0 of
                    (shortCode, attempts, w1) \<Rightarrow>
                      if attempts = 10 then
                        (Inr (Response_json (errorResponse ''Failed to generate unique code'') 500), w1)
                      else insertShortUrl P ctx shortCode (str_of url) expiresInDays w1)))"

definition code_param :: "ctx \<Rightarrow> string option" where
  "code_param c = (case params c of None \<Rightarrow> None | Some ps \<Rightarrow> ps ''code'')"

definition header_or_null :: "ctx \<Rightarrow> string \<Rightarrow> string option" where
  "header_or_null c name = (if truthy (headers (req c) name) then headers (req c) name else None)"

definition redirect :: handler where
  "redirect ctx w =
     (let shortCode = code_param ctx in
      if \<not> truthy shortCode then
        (Inr (Response_json (errorResponse ''Short code is required'') 400), w)
      else
        (case findUrlByShortCode w (str_of shortCode) of
           None \<Rightarrow> (Inr (Response_text ''URL not found'' 404), w)
         | Some urlRecord \<Rightarrow>
             if (case expires_at urlRecord of None \<Rightarrow> False | Some e \<Rightarrow> e < clock w) then
               (Inr (Response_text ''URL has expired'' 410), w)
             else
               (let userAgent = header_or_null ctx ''user-agent'';
                    referer = header_or_null ctx ''referer'';
                    ip = client_ip ctx;
                    w1 = logClick (urls_id urlRecord) userAgent referer ip w;
                    w2 = incrementClicks (urls_id urlRecord) w1
                in (Inr (Response_redirect (original_url urlRecord) 302), w2))))"

definition getUserUrls_handler :: "platform \<Rightarrow> handler" where
  "getUserUrls_handler P ctx w =
     (case user ctx of
        None \<Rightarrow> (Inr (Response_json (errorResponse ''Unauthorized'') 401), w)
      | Some caller \<Rightarrow>
          (Inr (Response_json
             (successResponse
                (DUrls (map (\<lambda>url. (url, baseUrl P @ ''/'' @ short_code url))
                          (getUserUrls w (userId caller))))
                ''Success'') 200), w))"

definition getAnalytics :: handler where
  "getAnalytics ctx w =
     (case user ctx of
        None \<Rightarrow> (Inr (Response_json (errorResponse ''Unauthorized'') 401), w)
      | Some caller \<Rightarrow>
          let shortCode = code_param ctx in
          if \<not> truthy shortCode then
            (Inr (Response_json (errorResponse ''Short code is required'') 400), w)
          else
            (case findUrlByShortCode w (str_of shortCode) of
               None \<Rightarrow> (Inr (Response_json (errorResponse ''URL not found'') 404), w)
             | Some urlRecord \<Rightarrow>
                 if user_id urlRecord \<noteq> Some (userId caller) then
                   (Inr (Response_json (errorResponse ''Unauthorized'') 403), w)
                 else
                   (Inr (Response_json
                      (successResponse
                         (DAnalytics (str_of shortCode) (clicks urlRecord)
                            (getUrlAnalytics w (urls_id urlRecord)))
                         ''Success'') 200), w)))"

definition deleteUrl_handler :: handler where
  "deleteUrl_handler ctx w =
     (case user ctx of
        None \<Rightarrow> (Inr (Response_json (errorResponse ''Unauthorized'') 401), w)
      | Some caller \<Rightarrow>
          let shortCode = code_param ctx in
          if \<not> truthy shortCode then
            (Inr (Response_json (errorResponse ''Short code is required'') 400), w)
          else
            (case deleteUrl (str_of shortCode) (userId caller) w of
               (changes, w') \<Rightarrow>
                 if changes = 0 then
                   (Inr (Response_json (errorResponse ''URL not found or unauthorized'') 404), w')
                 else
                   (Inr (Response_json (successResponse DNull ''URL deleted successfully'') 200), w')))"

section \<open>routes: the router and the route table\<close>

record route =
  route_method :: string
  route_path :: string
  route_handler :: handler
  route_middlewares :: "middleware list"

text \<open>The segments of a path: \<open>split("/").filter(Boolean)\<close>.\<close>

definition segments :: "string \<Rightarrow> string list" where
  "segments p = filter (\<lambda>s. s \<noteq> []) (split CHR ''/'' p)"

definition startsWith_colon :: "string \<Rightarrow> bool" where
  "startsWith_colon s = (case s of [] \<Rightarrow> False | c # cs \<Rightarrow> c = CHR '':'')"

text \<open>The loop of \<open>matchPath\<close> over the two segment lists, which have the same length.\<close>

fun matchParts :: "string list \<Rightarrow> string list \<Rightarrow> (string \<rightharpoonup> string) \<Rightarrow> (string \<rightharpoonup> string) option" where
  "matchParts (patternPart # ps) (pathPart # qs) bound =
     (if startsWith_colon patternPart then matchParts ps qs (bound(tl patternPart \<mapsto> pathPart))
      else if patternPart \<noteq> pathPart then None
      else matchParts ps qs bound)"
| "matchParts ps qs bound = Some bound"

definition matchPath :: "string \<Rightarrow> string \<Rightarrow> (string \<rightharpoonup> string) option" where
  "matchPath pattern path =
     (let patternParts = segments pattern; pathParts = segments path in
      if length patternParts \<noteq> length pathParts then None
      else matchParts patternParts pathParts Map.empty)"

fun match :: "route list \<Rightarrow> string \<Rightarrow> string \<Rightarrow> (route \<times> (string \<rightharpoonup> string)) option" where
  "match [] m path = None"
| "match (r # routes) m path =
     (if route_method r \<noteq> m then match routes m path
      else (case matchPath (route_path r) path of
              Some bound \<Rightarrow> Some (r, bound)
            | None \<Rightarrow> match routes m path))"

definition handle :: "route list \<Rightarrow> handler" where
  "handle routes ctx w =
     (case match routes (http_method (req ctx)) (pathname (req ctx)) of
        None \<Rightarrow> (Inr (Response_json (Failure ''Route not found'' None) 404), w)
      | Some (r, bound) \<Rightarrow>
          (case route_middlewares r of
             [] \<Rightarrow> route_handler r (ctx\<lparr>params := Some bound\<rparr>) w
           | m # ms \<Rightarrow> compose (m # ms) (ctx\<lparr>params := Some bound\<rparr>) (route_handler r) w))"

definition health :: handler where
  "health ctx w = (Inr (Response_json (Health (clock w)) 200), w)"

definition documentation :: handler where
  "documentation ctx w =
     (Inr \<lparr>status = 200, content = Html, resp_headers = [''content-type'' \<mapsto> HStr ''text/html'']\<rparr>, w)"

definition mk_route :: "string \<Rightarrow> string \<Rightarrow> handler \<Rightarrow> middleware list \<Rightarrow> route" where
  "mk_route m p h ms = \<lparr>route_method = m, route_path = p, route_handler = h, route_middlewares = ms\<rparr>"

text \<open>The routes in the order in which the program registers them.\<close>

definition router :: "platform \<Rightarrow> route list" where
  "router P =
     [mk_route ''GET'' ''/health'' health [],
      mk_route ''POST'' ''/api/auth/register'' (register P) [jsonParser],
      mk_route ''POST'' ''/api/auth/login'' (login P) [jsonParser],
      mk_route ''GET'' ''/api/auth/profile'' getProfile [authenticate P],
      mk_route ''POST'' ''/api/urls'' (createShortUrl P) [jsonParser],
      mk_route ''GET'' ''/api/urls'' (getUserUrls_handler P) [authenticate P],
      mk_route ''GET'' ''/api/urls/:code/analytics'' getAnalytics [authenticate P],
      mk_route ''DELETE'' ''/api/urls/:code'' deleteUrl_handler [authenticate P],
      mk_route ''GET'' ''/:code'' redirect [],
      mk_route ''GET'' ''/'' documentation []]"

section \<open>index: the server\<close>

definition globalMiddlewares :: "platform \<Rightarrow> middleware" where
  "globalMiddlewares P =
     compose [errorHandler, logger, cors P, rateLimit (API_RATE_LIMIT P) (RATE_LIMIT_WINDOW P)]"

definition fetch :: "platform \<Rightarrow> request \<Rightarrow> world \<Rightarrow> result" where
  "fetch P r w =
     globalMiddlewares P \<lparr>req = r, user = None, params = None, body = None\<rparr> (handle (router P)) w"

section \<open>Notions and sample values of the statements\<close>

subsection \<open>Sample platform, world and requests\<close>

text \<open>
  Concrete values at which the theorems below are instantiated: a platform whose token
  library knows two tokens, the world of a freshly started server, and a handler that
  answers 200.
\<close>

definition served :: handler where
  "served ctx w = (Inr (Response_json (successResponse DNull ''OK'') 200), w)"

definition demo_platform :: platform where
  "demo_platform =
     \<lparr>bcrypt_hash = (\<lambda>p. ''$2b$10$'' @ p),
      bcrypt_compare = (\<lambda>p h. h = ''$2b$10$'' @ p),
      jwt_sign = (\<lambda>p. ''token-'' @ username p),
      jwt_verify = (\<lambda>t. if t = ''token-alice'' then Inr \<lparr>userId = 1, username = ''alice''\<rparr>
                         else if t = ''token-bob'' then Inr \<lparr>userId = 2, username = ''bob''\<rparr>
                         else Inl (Error ''jwt malformed'')),
      url_protocol = (\<lambda>u. if take 8 u = ''https://'' then Some ''https:''
                           else if take 7 u = ''http://'' then Some ''http:'' else None),
      BASE_URL = None, CORS_ORIGIN = None, API_RATE_LIMIT = 100, RATE_LIMIT_WINDOW = 900000\<rparr>"

definition empty_world :: world where
  "empty_world =
     \<lparr>users = [], urls = [], analytics = [], users_seq = 0, urls_seq = 0, analytics_seq = 0,
      rateLimitStore = Map.empty, clock = 0, random = (\<lambda>i. 0)\<rparr>"

definition new_ctx :: "request \<Rightarrow> ctx" where
  "new_ctx r = \<lparr>req = r, user = None, params = None, body = None\<rparr>"

definition demo_request :: "string \<Rightarrow> string \<Rightarrow> (string \<times> string) list \<Rightarrow> json option \<Rightarrow> request" where
  "demo_request m p hs j = \<lparr>http_method = m, pathname = p, headers = map_of hs, json_text = j\<rparr>"

subsection \<open>Rate limiting\<close>

text \<open>
  A run of the limiter alone: the requests arrive one after the other, each at its own
  time, and the limiter hands over to a handler that answers 200. \<open>limiter_run\<close> returns,
  request by request, whether the answer was a 429, and the world at the end.
  \<open>requests_of k\<close> are the requests whose client key is \<open>k\<close>, \<open>answers_to k\<close> their answers.
\<close>

fun rejected :: "result \<Rightarrow> bool" where
  "rejected (Inr r, w) = (status r = 429)"
| "rejected (Inl e, w) = False"

fun limiter_run :: "int \<Rightarrow> int \<Rightarrow> (ctx \<times> int) list \<Rightarrow> world \<Rightarrow> bool list \<times> world" where
  "limiter_run maxRequests windowMs [] w = ([], w)"
| "limiter_run maxRequests windowMs ((c, t) # rs) w =
     (let r = rateLimit maxRequests windowMs c served (w\<lparr>clock := t\<rparr>);
          rest = limiter_run maxRequests windowMs rs (snd r)
      in (rejected r # fst rest, snd rest))"

definition answers_to :: "string \<Rightarrow> (ctx \<times> int) list \<Rightarrow> bool list \<Rightarrow> bool list" where
  "answers_to k rs outs = map snd (filter (\<lambda>(r, out). client_ip (fst r) = k) (zip rs outs))"

definition requests_of :: "string \<Rightarrow> (ctx \<times> int) list \<Rightarrow> (ctx \<times> int) list" where
  "requests_of k rs = filter (\<lambda>r. client_ip (fst r) = k) rs"

definition client :: "string \<Rightarrow> ctx" where
  "client ip = new_ctx (demo_request ''GET'' ''/health'' [(''x-forwarded-for'', ip)] None)"

definition limited_world :: world where
  "limited_world =
     empty_world\<lparr>rateLimitStore := [''10.0.0.1'' \<mapsto> \<lparr>count = 2, resetAt = 1005\<rparr>], clock := 8\<rparr>"

definition overflowed_world :: world where
  "overflowed_world =
     empty_world\<lparr>rateLimitStore := [''10.0.0.1'' \<mapsto> \<lparr>count = 2, resetAt = 10000000000000000\<rparr>],
                  clock := 8\<rparr>"

subsection \<open>Redirects\<close>

text \<open>
  Sample rows: a URL owned by user 2 that never expires and an anonymous URL that
  expires at time 1000, in a world whose clock stands at 500; a request whose path
  parameter \<open>code\<close> the router has bound; and the identity of user 1.
\<close>

definition github_row :: urls_row where
  "github_row =
     \<lparr>urls_id = 1, short_code = ''github'', original_url = ''https://github.com'',
      user_id = Some 2, clicks = 0, created_at = 0, expires_at = None\<rparr>"

definition anon_row :: urls_row where
  "anon_row =
     \<lparr>urls_id = 2, short_code = ''anon01'', original_url = ''https://example.com'',
      user_id = None, clicks = 3, created_at = 0, expires_at = Some 1000\<rparr>"

definition demo_world :: world where
  "demo_world = empty_world\<lparr>urls := [github_row, anon_row], urls_seq := 2, clock := 500\<rparr>"

definition visit :: "string \<Rightarrow> ctx" where
  "visit code =
     (new_ctx (demo_request ''GET'' (''/'' @ code) [] None))\<lparr>params := Some [''code'' \<mapsto> code]\<rparr>"

definition alice :: jwt_payload where
  "alice = \<lparr>userId = 1, username = ''alice''\<rparr>"

text \<open>
  \<open>redirect_run\<close> sends redirect requests one after the other, each at its own time, and
  returns the answers and the world at the end.
\<close>

fun redirect_run :: "(ctx \<times> int) list \<Rightarrow> world \<Rightarrow> (exn + response) list \<times> world" where
  "redirect_run [] w = ([], w)"
| "redirect_run ((c, t) # rs) w =
     (let r = redirect c (w\<lparr>clock := t\<rparr>);
          rest = redirect_run rs (snd r)
      in (fst r # fst rest, snd rest))"

subsection \<open>Short codes without a custom code\<close>

text \<open>
  \<open>generated n w\<close> are the next \<open>n\<close> codes that \<open>generateShortCode()\<close> returns in world \<open>w\<close>;
  a code is \<open>unused\<close> when no row has it; \<open>owner_of\<close> is the owner that \<open>createShortUrl\<close>
  stores (\<open>ctx.user?.userId || null\<close>).
\<close>

fun generated :: "nat \<Rightarrow> world \<Rightarrow> string list" where
  "generated 0 w = []"
| "generated (Suc n) w = (case generateShortCode 6 w of (code, w') \<Rightarrow> code # generated n w')"

definition unused :: "world \<Rightarrow> string \<Rightarrow> bool" where
  "unused w code = (findUrlByShortCode w code = None)"

definition owner_of :: "ctx \<Rightarrow> nat option" where
  "owner_of c = (case user c of None \<Rightarrow> None
                 | Some caller \<Rightarrow> if userId caller = 0 then None else Some (userId caller))"

text \<open>
  A generator that always returns \<open>aaaaaa\<close>: in the empty table the code is free, and in a
  table that has it all ten attempts collide.
\<close>

definition shorten :: "string \<Rightarrow> int option \<Rightarrow> ctx" where
  "shorten u days =
     (new_ctx (demo_request ''POST'' ''/api/urls'' [(''content-type'', ''application/json'')] None))
       \<lparr>body := Some (JObject \<lparr>username_field = None, email_field = None, password_field = None,
                               url_field = Some u, customCode_field = None,
                               expiresInDays_field = days\<rparr>)\<rparr>"

definition taken_world :: world where
  "taken_world =
     empty_world\<lparr>urls := [\<lparr>urls_id = 1, short_code = ''aaaaaa'', original_url = ''https://a.example'',
                              user_id = None, clicks = 0, created_at = 0, expires_at = None\<rparr>],
                  urls_seq := 1\<rparr>"

subsection \<open>Error responses\<close>

text \<open>
  A response is \<open>enveloped\<close> when its status is below 400, or its body is the JSON object
  \<open>{success: false, error, ...}\<close>, or, where plain text is allowed, it is one of the two
  plain-text answers of the redirect endpoint. A handler \<open>answers_enveloped\<close> for a
  request when every response it returns in a context of that request is enveloped;
  a middleware \<open>keeps_enveloped\<close> when it turns such a continuation into such a handler.
  \<open>redirect_route\<close> is the route of the redirect endpoint as the program registers it.
  \<open>answer\<close> reads status and body off a result.
\<close>

definition enveloped :: "bool \<Rightarrow> response \<Rightarrow> bool" where
  "enveloped plain r =
     (status r < 400 \<or> (\<exists>msg sc. content r = Failure msg sc) \<or>
      (plain \<and> ((status r = 404 \<and> content r = Text ''URL not found'') \<or>
                (status r = 410 \<and> content r = Text ''URL has expired''))))"

fun fine :: "bool \<Rightarrow> result \<Rightarrow> bool" where
  "fine plain (Inr r, w) = enveloped plain r"
| "fine plain (Inl e, w) = True"

definition answers_enveloped :: "request \<Rightarrow> bool \<Rightarrow> handler \<Rightarrow> bool" where
  "answers_enveloped q plain h = (\<forall>c w. req c = q \<longrightarrow> fine plain (h c w))"

definition keeps_enveloped :: "middleware \<Rightarrow> bool" where
  "keeps_enveloped m =
     (\<forall>q plain nxt. answers_enveloped q plain nxt \<longrightarrow> answers_enveloped q plain (\<lambda>c. m c nxt))"

definition redirect_route :: route where
  "redirect_route = mk_route ''GET'' ''/:code'' redirect []"

fun answer :: "result \<Rightarrow> (nat \<times> content) option" where
  "answer (Inr r, w) = Some (status r, content r)"
| "answer (Inl e, w) = None"

section \<open>Splitting strings\<close>

lemma split_not_Nil: "split c s \<noteq> []"
  by (induction s) (auto split: list.splits)

lemma split_single: "split c s = [a] \<longleftrightarrow> s = a \<and> c \<notin> set a"
proof (induction s arbitrary: a)
  case Nil
  then show ?case by auto
next
  case (Cons x xs)
  show ?case
  proof (cases "x = c")
    case True
    then show ?thesis using split_not_Nil[of c xs] by auto
  next
    case False
    then show ?thesis using Cons[of "tl a"] split_not_Nil[of c xs]
      by (cases a) (auto split: list.splits)
  qed
qed

lemma split_pair: "split c s = [a, b] \<longleftrightarrow> s = a @ c # b \<and> c \<notin> set a \<and> c \<notin> set b"
proof (induction s arbitrary: a)
  case Nil
  then show ?case by auto
next
  case (Cons x xs)
  show ?case
  proof (cases "x = c")
    case True
    then show ?thesis using split_single[of c xs b] 
      by (cases a) auto
  next
    case False
    then show ?thesis using Cons[of "tl a"] split_not_Nil[of c xs]
      by (cases a) (auto split: list.splits)
  qed
qed

section \<open>Authentication\<close>

lemma extract_Some:
  "extractTokenFromHeader h = Some t \<longleftrightarrow> h = Some (''Bearer '' @ t) \<and> CHR '' '' \<notin> set t"
proof (cases h)
  case None
  then show ?thesis by (simp add: extractTokenFromHeader_def)
next
  case (Some s)
  have len2: "length (split CHR '' '' s) = 2 \<longleftrightarrow> (\<exists>a b. split CHR '' '' s = [a, b])"
    by (auto simp: length_Suc_conv numeral_2_eq_2)
  show ?thesis
  proof
    assume "extractTokenFromHeader h = Some t"
    then obtain a where "split CHR '' '' s = [a, t]" "a = ''Bearer''"
      using Some by (auto simp: extractTokenFromHeader_def Let_def len2 split: if_splits)
    then show "h = Some (''Bearer '' @ t) \<and> CHR '' '' \<notin> set t"
      using Some by (auto simp: split_pair)
  next
    assume "h = Some (''Bearer '' @ t) \<and> CHR '' '' \<notin> set t"
    then have "split CHR '' '' s = [''Bearer'', t]"
      using Some split_pair[of "CHR '' ''" s "''Bearer''" t] by auto
    then show "extractTokenFromHeader h = Some t"
      using Some by (auto simp: extractTokenFromHeader_def Let_def)
  qed
qed

text \<open>
  C6. \<open>extractTokenFromHeader\<close> yields a token exactly for a header of the two-part form
  \<open>Bearer <token>\<close>. When the header has no such form with a non-empty token,
  \<open>authenticate\<close> answers 401 "No token provided" whatever the continuation is, so the
  handler is not invoked; when the token does not verify it answers 401 "Invalid or
  expired token", again without the continuation; when it verifies, the continuation
  runs on the context with the decoded \<open>userId\<close> and \<open>username\<close> attached.
\<close>

theorem authenticate_bearer:
  "(extractTokenFromHeader h = Some t \<longleftrightarrow> h = Some (''Bearer '' @ t) \<and> CHR '' '' \<notin> set t) \<and>
   ((\<forall>t. headers (req c) ''authorization'' = Some (''Bearer '' @ t) \<longrightarrow> t = [] \<or> CHR '' '' \<in> set t) \<longrightarrow>
      authenticate P c nxt w = (Inr (Response_json (Failure ''No token provided'' None) 401), w)) \<and>
   (headers (req c) ''authorization'' = Some (''Bearer '' @ tok) \<and> tok \<noteq> [] \<and> CHR '' '' \<notin> set tok \<longrightarrow>
      (verifyToken P tok = None \<longrightarrow>
         authenticate P c nxt w =
           (Inr (Response_json (Failure ''Invalid or expired token'' None) 401), w)) \<and>
      (\<forall>p. verifyToken P tok = Some p \<longrightarrow>
         authenticate P c nxt w =
           nxt (c\<lparr>user := Some \<lparr>userId = userId p, username = username p\<rparr>\<rparr>) w))"
proof (intro conjI impI)
  show "extractTokenFromHeader h = Some t \<longleftrightarrow> h = Some (''Bearer '' @ t) \<and> CHR '' '' \<notin> set t"
    by (rule extract_Some)
next
  assume none: "\<forall>t. headers (req c) ''authorization'' = Some (''Bearer '' @ t) \<longrightarrow> t = [] \<or> CHR '' '' \<in> set t"
  have "\<not> truthy (extractTokenFromHeader (headers (req c) ''authorization''))"
  proof (cases "extractTokenFromHeader (headers (req c) ''authorization'')")
    case None
    then show ?thesis by simp
  next
    case (Some t)
    then have "headers (req c) ''authorization'' = Some (''Bearer '' @ t)" "CHR '' '' \<notin> set t"
      by (simp_all add: extract_Some)
    with none have "t = []" by blast
    with Some show ?thesis by simp
  qed
  then show "authenticate P c nxt w = (Inr (Response_json (Failure ''No token provided'' None) 401), w)"
    by (simp add: authenticate_def Let_def)
next
  assume h: "headers (req c) ''authorization'' = Some (''Bearer '' @ tok) \<and> tok \<noteq> [] \<and> CHR '' '' \<notin> set tok"
  then have ex: "extractTokenFromHeader (headers (req c) ''authorization'') = Some tok"
    by (simp add: extract_Some)
  {
    assume "verifyToken P tok = None"
    with ex h show "authenticate P c nxt w =
           (Inr (Response_json (Failure ''Invalid or expired token'' None) 401), w)"
      by (simp add: authenticate_def Let_def)
  }
  show "\<forall>p. verifyToken P tok = Some p \<longrightarrow>
         authenticate P c nxt w =
           nxt (c\<lparr>user := Some \<lparr>userId = userId p, username = username p\<rparr>\<rparr>) w"
    using ex h by (simp add: authenticate_def Let_def)
qed

text \<open>The three cases at the sample platform: no header, a forged token, a valid token.\<close>

theorem authenticate_bearer_witness:
  "extractTokenFromHeader (Some ''Bearer token-alice'') = Some ''token-alice'' \<and>
   authenticate demo_platform (new_ctx (demo_request ''GET'' ''/api/urls'' [] None)) served empty_world =
     (Inr (Response_json (Failure ''No token provided'' None) 401), empty_world) \<and>
   authenticate demo_platform
     (new_ctx (demo_request ''GET'' ''/api/urls'' [(''authorization'', ''Bearer forged'')] None))
     served empty_world =
     (Inr (Response_json (Failure ''Invalid or expired token'' None) 401), empty_world) \<and>
   authenticate demo_platform
     (new_ctx (demo_request ''GET'' ''/api/urls'' [(''authorization'', ''Bearer token-alice'')] None))
     served empty_world =
     served ((new_ctx (demo_request ''GET'' ''/api/urls'' [(''authorization'', ''Bearer token-alice'')] None))
               \<lparr>user := Some \<lparr>userId = 1, username = ''alice''\<rparr>\<rparr>) empty_world"
  using authenticate_bearer[where h = "Some ''Bearer token-alice''" and t = "''token-alice''"
          and c = "new_ctx (demo_request ''GET'' ''/api/urls'' [] None)" and P = demo_platform
          and nxt = served and w = empty_world and tok = "''x''"]
        authenticate_bearer[where h = None and t = "[]"
          and c = "new_ctx (demo_request ''GET'' ''/api/urls'' [(''authorization'', ''Bearer forged'')] None)"
          and tok = "''forged''" and P = demo_platform and nxt = served and w = empty_world]
        authenticate_bearer[where h = None and t = "[]"
          and c = "new_ctx (demo_request ''GET'' ''/api/urls'' [(''authorization'', ''Bearer token-alice'')] None)"
          and tok = "''token-alice''" and P = demo_platform and nxt = served and w = empty_world]
  by (simp add: new_ctx_def demo_request_def demo_platform_def verifyToken_def)

section \<open>Rate limiting\<close>

lemma client_ip_client: "ip \<noteq> [] \<Longrightarrow> client_ip (client ip) = ip"
  by (simp add: client_ip_def client_def new_ctx_def demo_request_def)

lemma rateLimit_other_key:
  "k \<noteq> client_ip c \<Longrightarrow> rateLimitStore (snd (rateLimit m win c served w)) k = rateLimitStore w k"
  by (auto simp: rateLimit_def served_def Let_def split: option.splits sum.splits)

lemma rateLimit_open_window:
  assumes "rateLimitStore w (client_ip c) = Some r" "clock w < resetAt r"
    "\<bar>resetAt r\<bar> \<le> 8640000000000000"
  shows "rejected (rateLimit m win c served w) = (m \<le> count r)"
    and "rateLimitStore (snd (rateLimit m win c served w)) (client_ip c) =
           Some (if m \<le> count r then r else r\<lparr>count := count r + 1\<rparr>)"
  using assms
  by (auto simp: rateLimit_def served_def Let_def Response_json_def toISOString_def TimeClip_def)

lemma rateLimit_rejects:
  assumes "rateLimitStore w (client_ip c) = Some r" "clock w < resetAt r" "m \<le> count r"
    "\<bar>resetAt r\<bar> \<le> 8640000000000000"
  shows "\<exists>resp. rateLimit m win c nxt w = (Inr resp, w) \<and> status resp = 429"
  using assms by (simp add: rateLimit_def Let_def toISOString_def TimeClip_def)

lemma rateLimit_throws:
  assumes "rateLimitStore w (client_ip c) = Some r" "clock w < resetAt r" "m \<le> count r"
    "8640000000000000 < \<bar>resetAt r\<bar>"
  shows "rateLimit m win c nxt w = (Inl (RangeError ''Invalid time value''), w)"
  using assms by (simp add: rateLimit_def Let_def toISOString_def TimeClip_def)

lemma rateLimit_new_window:
  assumes "\<forall>r. rateLimitStore w (client_ip c) = Some r \<longrightarrow> \<not> clock w < resetAt r"
  shows "rateLimit m win c next w =
           next c (w\<lparr>rateLimitStore := (rateLimitStore w)(client_ip c \<mapsto>
                      \<lparr>count = 1, resetAt = clock w + win\<rparr>)\<rparr>)"
  using assms by (auto simp: rateLimit_def Let_def split: option.splits)

lemma limiter_run_window:
  assumes "rateLimitStore w k = Some \<lparr>count = c, resetAt = R\<rparr>"
    and "\<forall>r \<in> set (requests_of k rs). snd r < R"
    and "\<bar>R\<bar> \<le> 8640000000000000"
  shows "answers_to k rs (fst (limiter_run m win rs w)) =
           map (\<lambda>j. m \<le> c + int j) [0..<length (requests_of k rs)] \<and>
         rateLimitStore (snd (limiter_run m win rs w)) k =
           Some \<lparr>count = (if m \<le> c then c else min m (c + int (length (requests_of k rs)))),
                 resetAt = R\<rparr>"
  using assms(1,2)
proof (induction rs arbitrary: w c)
  case Nil
  then show ?case by (simp add: answers_to_def requests_of_def)
next
  case (Cons a rs)
  obtain x t where a: "a = (x, t)" by (cases a)
  let ?w = "w\<lparr>clock := t\<rparr>"
  let ?w' = "snd (rateLimit m win x served ?w)"
  show ?case
  proof (cases "client_ip x = k")
    case False
    then have st: "rateLimitStore ?w' k = Some \<lparr>count = c, resetAt = R\<rparr>"
      using rateLimit_other_key[of k x m win ?w] Cons.prems(1) by simp
    have "\<forall>r \<in> set (requests_of k rs). snd r < R"
      using Cons.prems(2) by (simp add: requests_of_def)
    from Cons.IH[OF st this] False a show ?thesis
      by (simp add: answers_to_def requests_of_def Let_def)
  next
    case True
    have tR: "t < R" using Cons.prems(2) True a by (simp add: requests_of_def)
    have open1: "rateLimitStore ?w (client_ip x) = Some \<lparr>count = c, resetAt = R\<rparr>"
      using Cons.prems(1) True by simp
    have open2: "clock ?w < resetAt \<lparr>count = c, resetAt = R\<rparr>" using tR by simp
    have open3: "\<bar>resetAt \<lparr>count = c, resetAt = R\<rparr>\<bar> \<le> 8640000000000000"
      using assms(3) by simp
    note step = rateLimit_open_window[OF open1 open2 open3, of m win]
    let ?c' = "if m \<le> c then c else c + 1"
    have st: "rateLimitStore ?w' k = Some \<lparr>count = ?c', resetAt = R\<rparr>"
      using step(2) True by auto
    have rest: "\<forall>r \<in> set (requests_of k rs). snd r < R"
      using Cons.prems(2) by (simp add: requests_of_def)
    note IH = Cons.IH[OF st rest]
    have len: "length (requests_of k (a # rs)) = Suc (length (requests_of k rs))"
      using True a by (simp add: requests_of_def)
    have ans: "answers_to k (a # rs) (fst (limiter_run m win (a # rs) w)) =
        (m \<le> c) # answers_to k rs (fst (limiter_run m win rs ?w'))"
      using True a step(1) by (simp add: answers_to_def Let_def)
    have fin: "snd (limiter_run m win (a # rs) w) = snd (limiter_run m win rs ?w')"
      using a by (simp add: Let_def)
    have upt: "[0..<Suc n] = 0 # map Suc [0..<n]" for n
      by (simp add: upt_conv_Cons map_Suc_upt del: upt_Suc)
    show ?thesis
    proof (cases "m \<le> c")
      case True
      with IH ans fin len show ?thesis
        by (simp add: upt comp_def del: upt_Suc) 
    next
      case False
      with IH ans fin len show ?thesis
        by (auto simp add: upt comp_def min_def simp del: upt_Suc)
    qed
  qed
qed

text \<open>
  C4 (as amended). Take a request of some client key that opens a window: the key has
  no record, or its reset time is not after the request's time \<open>t0\<close>; and let the new
  reset time \<open>t0 + win\<close> lie within the range of \<open>Date\<close>. Let any requests follow, of this
  key and of others in any order, those of the key before the reset time. Then request
  number \<open>j\<close> of the key in this window (the opening one is number 0) is answered 429
  exactly when \<open>0 < j\<close> and \<open>m \<le> j\<close>: the opening request always passes, and for a limit
  \<open>m \<ge> 1\<close> the first \<open>m\<close> requests pass and every later one is rejected. The counter ends
  at \<open>min m (number of requests)\<close> for \<open>m \<ge> 1\<close>, so rejected requests do not move it.
  A rejected request leaves the whole world unchanged. When the reset time lies outside
  the range of \<open>Date\<close>, a request beyond the limit is not answered 429: building the
  reset header throws a \<open>RangeError\<close>, again with the world unchanged. A request at or
  after the reset time restarts the counter at 1 with a new reset time; and a request
  never changes the record of another key.
\<close>

theorem rateLimit_window:
  "((\<forall>r. rateLimitStore w (client_ip c0) = Some r \<longrightarrow> resetAt r \<le> t0) \<and>
    \<bar>t0 + win\<bar> \<le> 8640000000000000 \<and>
    (\<forall>r \<in> set (requests_of (client_ip c0) rs). snd r < t0 + win) \<longrightarrow>
      answers_to (client_ip c0) ((c0, t0) # rs) (fst (limiter_run m win ((c0, t0) # rs) w)) =
        map (\<lambda>j. 0 < j \<and> m \<le> int j) [0..<Suc (length (requests_of (client_ip c0) rs))] \<and>
      rateLimitStore (snd (limiter_run m win ((c0, t0) # rs) w)) (client_ip c0) =
        Some \<lparr>count = (if m \<le> 1 then 1
                        else min m (1 + int (length (requests_of (client_ip c0) rs)))),
              resetAt = t0 + win\<rparr>) \<and>
   (rateLimitStore w (client_ip c) = Some r \<and> clock w < resetAt r \<and> m \<le> count r \<and>
    \<bar>resetAt r\<bar> \<le> 8640000000000000 \<longrightarrow>
      (\<exists>resp. rateLimit m win c nxt w = (Inr resp, w) \<and> status resp = 429)) \<and>
   (rateLimitStore w (client_ip c) = Some r \<and> clock w < resetAt r \<and> m \<le> count r \<and>
    8640000000000000 < \<bar>resetAt r\<bar> \<longrightarrow>
      rateLimit m win c nxt w = (Inl (RangeError ''Invalid time value''), w)) \<and>
   (rateLimitStore w (client_ip c) = Some r \<and> resetAt r \<le> clock w \<longrightarrow>
      rateLimit m win c nxt w =
        nxt c (w\<lparr>rateLimitStore := (rateLimitStore w)(client_ip c \<mapsto>
                   \<lparr>count = 1, resetAt = clock w + win\<rparr>)\<rparr>)) \<and>
   (k \<noteq> client_ip c \<longrightarrow>
      rateLimitStore (snd (rateLimit m win c served w)) k = rateLimitStore w k)"
proof (intro conjI impI)
  assume h: "(\<forall>r. rateLimitStore w (client_ip c0) = Some r \<longrightarrow> resetAt r \<le> t0) \<and>
    \<bar>t0 + win\<bar> \<le> 8640000000000000 \<and>
    (\<forall>r \<in> set (requests_of (client_ip c0) rs). snd r < t0 + win)"
  let ?k = "client_ip c0"
  let ?w0 = "w\<lparr>clock := t0\<rparr>"
  have new: "\<forall>r. rateLimitStore ?w0 ?k = Some r \<longrightarrow> \<not> clock ?w0 < resetAt r"
    using h by auto
  let ?w1 = "?w0\<lparr>rateLimitStore := (rateLimitStore ?w0)(?k \<mapsto> \<lparr>count = 1, resetAt = clock ?w0 + win\<rparr>)\<rparr>"
  have first: "rateLimit m win c0 served ?w0 = served c0 ?w1"
    by (rule rateLimit_new_window[OF new])
  then have res: "rateLimit m win c0 served ?w0 = (Inr (Response_json (successResponse DNull ''OK'') 200), ?w1)"
    by (simp add: served_def)
  have st: "rateLimitStore ?w1 ?k = Some \<lparr>count = 1, resetAt = t0 + win\<rparr>" by simp
  from h have later: "\<forall>r \<in> set (requests_of ?k rs). snd r < t0 + win" by simp
  from h have range: "\<bar>t0 + win\<bar> \<le> 8640000000000000" by simp
  note run = limiter_run_window[OF st later range, of m win]
  have rej: "\<not> rejected (rateLimit m win c0 served ?w0)"
    by (simp add: res Response_json_def)
  have upt: "[0..<Suc n] = 0 # map Suc [0..<n]" for n
    by (simp add: upt_conv_Cons map_Suc_upt del: upt_Suc)
  show "answers_to ?k ((c0, t0) # rs) (fst (limiter_run m win ((c0, t0) # rs) w)) =
        map (\<lambda>j. 0 < j \<and> m \<le> int j) [0..<Suc (length (requests_of ?k rs))]"
    using run rej res by (simp add: answers_to_def Let_def upt comp_def del: upt_Suc)
  show "rateLimitStore (snd (limiter_run m win ((c0, t0) # rs) w)) ?k =
        Some \<lparr>count = (if m \<le> 1 then 1 else min m (1 + int (length (requests_of ?k rs)))),
              resetAt = t0 + win\<rparr>"
    using run res by (simp add: Let_def)
next
  assume "rateLimitStore w (client_ip c) = Some r \<and> clock w < resetAt r \<and> m \<le> count r \<and>
    \<bar>resetAt r\<bar> \<le> 8640000000000000"
  then show "\<exists>resp. rateLimit m win c nxt w = (Inr resp, w) \<and> status resp = 429"
    by (intro rateLimit_rejects) auto
next
  assume "rateLimitStore w (client_ip c) = Some r \<and> clock w < resetAt r \<and> m \<le> count r \<and>
    8640000000000000 < \<bar>resetAt r\<bar>"
  then show "rateLimit m win c nxt w = (Inl (RangeError ''Invalid time value''), w)"
    by (intro rateLimit_throws) auto
next
  assume "rateLimitStore w (client_ip c) = Some r \<and> resetAt r \<le> clock w"
  then show "rateLimit m win c nxt w =
        nxt c (w\<lparr>rateLimitStore := (rateLimitStore w)(client_ip c \<mapsto>
                   \<lparr>count = 1, resetAt = clock w + win\<rparr>)\<rparr>)"
    by (intro rateLimit_new_window) auto
next
  assume "k \<noteq> client_ip c"
  then show "rateLimitStore (snd (rateLimit m win c served w)) k = rateLimitStore w k"
    by (rule rateLimit_other_key)
qed

text \<open>
  Limit 2, window 1000 ms, a second client in between; then a world whose window is
  full; and a world whose window is full and whose reset time is beyond the range of \<open>Date\<close>.
\<close>

theorem rateLimit_window_witness:
  "answers_to ''10.0.0.1''
     [(client ''10.0.0.1'', 5), (client ''10.0.0.2'', 6), (client ''10.0.0.1'', 7), (client ''10.0.0.1'', 8)]
     (fst (limiter_run 2 1000
        [(client ''10.0.0.1'', 5), (client ''10.0.0.2'', 6), (client ''10.0.0.1'', 7), (client ''10.0.0.1'', 8)]
        empty_world)) = [False, False, True] \<and>
   rateLimitStore (snd (limiter_run 2 1000
        [(client ''10.0.0.1'', 5), (client ''10.0.0.2'', 6), (client ''10.0.0.1'', 7), (client ''10.0.0.1'', 8)]
        empty_world)) ''10.0.0.1'' = Some \<lparr>count = 2, resetAt = 1005\<rparr> \<and>
   (\<exists>resp. rateLimit 2 1000 (client ''10.0.0.1'') served limited_world = (Inr resp, limited_world) \<and>
           status resp = 429) \<and>
   rateLimit 2 1000 (client ''10.0.0.1'') served overflowed_world =
     (Inl (RangeError ''Invalid time value''), overflowed_world) \<and>
   rateLimit 2 1000 (client ''10.0.0.1'') served (limited_world\<lparr>clock := 1005\<rparr>) =
     served (client ''10.0.0.1'')
       (limited_world\<lparr>clock := 1005,
          rateLimitStore := [''10.0.0.1'' \<mapsto> \<lparr>count = 1, resetAt = 2005\<rparr>]\<rparr>) \<and>
   rateLimitStore (snd (rateLimit 2 1000 (client ''10.0.0.1'') served limited_world)) ''10.0.0.2'' = None"
  using rateLimit_window[where w = empty_world and ?c0.0 = "client ''10.0.0.1''" and ?t0.0 = 5
          and win = 1000 and m = 2
          and rs = "[(client ''10.0.0.2'', 6), (client ''10.0.0.1'', 7), (client ''10.0.0.1'', 8)]"
          and c = "client ''10.0.0.1''" and r = "\<lparr>count = 2, resetAt = 1005\<rparr>"
          and nxt = served and k = "''10.0.0.2''"]
        rateLimit_window[where w = limited_world and ?c0.0 = "client ''10.0.0.1''" and ?t0.0 = 5000
          and win = 1000 and m = 2 and rs = "[]"
          and c = "client ''10.0.0.1''" and r = "\<lparr>count = 2, resetAt = 1005\<rparr>"
          and nxt = served and k = "''10.0.0.2''"]
        rateLimit_window[where w = overflowed_world and ?c0.0 = "client ''10.0.0.1''" and ?t0.0 = 5000
          and win = 1000 and m = 2 and rs = "[]"
          and c = "client ''10.0.0.1''" and r = "\<lparr>count = 2, resetAt = 10000000000000000\<rparr>"
          and nxt = served and k = "''10.0.0.2''"]
        rateLimit_window[where w = "limited_world\<lparr>clock := 1005\<rparr>" and ?c0.0 = "client ''10.0.0.1''"
          and ?t0.0 = 5000 and win = 1000 and m = 2 and rs = "[]"
          and c = "client ''10.0.0.1''" and r = "\<lparr>count = 2, resetAt = 1005\<rparr>"
          and nxt = served and k = "''10.0.0.2''"]
  by (simp add: client_ip_client requests_of_def empty_world_def limited_world_def overflowed_world_def)

text \<open>
  The claim as stated fails for a limit of 0: the request that opens the window is
  beyond the first 0 requests and still passes. It also fails for a window so long that
  the reset time leaves the range of \<open>Date\<close>: with a limit of 1, the second request of
  the window is not answered 429, the limiter throws.
\<close>

theorem rateLimit_window_counterexample:
  "\<not> rejected (rateLimit 0 900000 (client ''10.0.0.1'') served empty_world) \<and>
   fst (limiter_run 0 900000 [(client ''10.0.0.1'', 0)] empty_world) = [False] \<and>
   fst (rateLimit 1 10000000000000000 (client ''10.0.0.1'') served
          (snd (rateLimit 1 10000000000000000 (client ''10.0.0.1'') served empty_world))) =
     Inl (RangeError ''Invalid time value'')"
  by (simp add: rateLimit_def client_ip_client empty_world_def served_def Response_json_def Let_def
        toISOString_def TimeClip_def)

section \<open>Routing\<close>

lemma matchParts_keeps:
  "matchParts ps qs b = Some b' \<Longrightarrow> \<forall>p \<in> set ps. startsWith_colon p \<longrightarrow> tl p \<noteq> n \<Longrightarrow> b' n = b n"
proof (induction ps arbitrary: qs b)
  case Nil
  then show ?case by simp
next
  case (Cons p ps)
  show ?case
  proof (cases qs)
    case Nil
    with Cons.prems show ?thesis by simp
  next
    case (Cons q qs')
    show ?thesis
    proof (cases "startsWith_colon p")
      case True
      with Cons.prems Cons have m: "matchParts ps qs' (b(tl p \<mapsto> q)) = Some b'" by simp
      from Cons.prems(2) True have ne: "tl p \<noteq> n" by simp
      from Cons.IH[OF m] Cons.prems(2) have "b' n = (b(tl p \<mapsto> q)) n" by simp
      with ne show ?thesis by simp
    next
      case False
      with Cons.prems Cons have m: "matchParts ps qs' b = Some b'" by (simp split: if_splits)
      from Cons.IH[OF m] Cons.prems(2) show ?thesis by simp
    qed
  qed
qed

lemma matchParts_literals:
  "length ps = length qs \<Longrightarrow>
   (matchParts ps qs b \<noteq> None) = (\<forall>i < length ps. \<not> startsWith_colon (ps ! i) \<longrightarrow> ps ! i = qs ! i)"
proof (induction ps arbitrary: qs b)
  case Nil
  then show ?case by simp
next
  case (Cons p ps)
  then obtain q qs' where qs: "qs = q # qs'" by (cases qs) auto
  with Cons.prems have len: "length ps = length qs'" by simp
  have all: "(\<forall>i < length (p # ps). \<not> startsWith_colon ((p # ps) ! i) \<longrightarrow> (p # ps) ! i = qs ! i) =
     ((\<not> startsWith_colon p \<longrightarrow> p = q) \<and>
      (\<forall>i < length ps. \<not> startsWith_colon (ps ! i) \<longrightarrow> ps ! i = qs' ! i))"
    unfolding qs by (auto simp: nth_Cons split: nat.splits)
  show ?case
  proof (cases "startsWith_colon p")
    case True
    then show ?thesis unfolding all using Cons.IH[OF len, of "b(tl p \<mapsto> q)"] qs
      by (simp del: fun_upd_apply)
  next
    case False
    then show ?thesis unfolding all using Cons.IH[OF len, of b] qs by simp
  qed
qed

lemma matchParts_binds:
  "length ps = length qs \<Longrightarrow> matchParts ps qs b = Some b' \<Longrightarrow> i < length ps \<Longrightarrow>
   startsWith_colon (ps ! i) \<Longrightarrow> \<forall>j. i < j \<and> j < length ps \<longrightarrow> ps ! j \<noteq> ps ! i \<Longrightarrow>
   b' (tl (ps ! i)) = Some (qs ! i)"
proof (induction ps arbitrary: qs b i)
  case Nil
  then show ?case by simp
next
  case (Cons p ps)
  then obtain q qs' where qs: "qs = q # qs'" by (cases qs) auto
  with Cons.prems have len: "length ps = length qs'" by simp
  show ?case
  proof (cases i)
    case 0
    have later: "\<forall>x \<in> set ps. startsWith_colon x \<longrightarrow> tl x \<noteq> tl p"
    proof (intro ballI impI)
      fix x assume x: "x \<in> set ps" "startsWith_colon x"
      then obtain j where j: "j < length ps" "ps ! j = x" by (auto simp: in_set_conv_nth)
      with Cons.prems(5) 0 have "x \<noteq> p" by (auto dest: spec[of _ "Suc j"])
      with x(2) Cons.prems(4) 0 show "tl x \<noteq> tl p"
        by (auto simp: startsWith_colon_def split: list.splits)
    qed
    from Cons.prems 0 qs have m: "matchParts ps qs' (b(tl p \<mapsto> q)) = Some b'"
      by simp
    from matchParts_keeps[OF m later] 0 qs show ?thesis by simp
  next
    case (Suc k)
    have later: "\<forall>j. k < j \<and> j < length ps \<longrightarrow> ps ! j \<noteq> ps ! k"
    proof (intro allI impI)
      fix j assume "k < j \<and> j < length ps"
      with Cons.prems(5) Suc show "ps ! j \<noteq> ps ! k" by (auto dest: spec[of _ "Suc j"])
    qed
    from Cons.prems Suc have k: "k < length ps" "startsWith_colon (ps ! k)" by simp_all
    show ?thesis
    proof (cases "startsWith_colon p")
      case True
      with Cons.prems qs have m: "matchParts ps qs' (b(tl p \<mapsto> q)) = Some b'" by simp
      from Cons.IH[OF len m k later] Suc qs show ?thesis by simp
    next
      case False
      with Cons.prems qs have m: "matchParts ps qs' b = Some b'" by (simp split: if_splits)
      from Cons.IH[OF len m k later] Suc qs show ?thesis by simp
    qed
  qed
qed

lemma match_None:
  "match routes m path = None \<longleftrightarrow>
     (\<forall>r \<in> set routes. route_method r \<noteq> m \<or> matchPath (route_path r) path = None)"
  by (induction routes) (auto split: option.splits)

lemma match_Some:
  "match routes m path = Some (r, bound) \<longleftrightarrow>
     (\<exists>pre post. routes = pre @ r # post \<and>
        (\<forall>x \<in> set pre. route_method x \<noteq> m \<or> matchPath (route_path x) path = None) \<and>
        route_method r = m \<and> matchPath (route_path r) path = Some bound)"
proof (induction routes)
  case Nil
  then show ?case by simp
next
  case (Cons a routes)
  let ?skip = "\<lambda>x. route_method x \<noteq> m \<or> matchPath (route_path x) path = None"
  let ?hit = "route_method r = m \<and> matchPath (route_path r) path = Some bound"
  show ?case
  proof (cases "?skip a")
    case True
    then have "match (a # routes) m path = match routes m path" by auto
    moreover have "(\<exists>pre post. a # routes = pre @ r # post \<and> (\<forall>x \<in> set pre. ?skip x) \<and> ?hit) =
       (\<exists>pre post. routes = pre @ r # post \<and> (\<forall>x \<in> set pre. ?skip x) \<and> ?hit)"
    proof
      assume "\<exists>pre post. a # routes = pre @ r # post \<and> (\<forall>x \<in> set pre. ?skip x) \<and> ?hit"
      then obtain pre post where h: "a # routes = pre @ r # post" "\<forall>x \<in> set pre. ?skip x" "?hit"
        by blast
      from h True obtain pre' where "pre = a # pre'" by (cases pre) auto
      with h show "\<exists>pre post. routes = pre @ r # post \<and> (\<forall>x \<in> set pre. ?skip x) \<and> ?hit"
        by auto
    next
      assume "\<exists>pre post. routes = pre @ r # post \<and> (\<forall>x \<in> set pre. ?skip x) \<and> ?hit"
      then obtain pre post where h: "routes = pre @ r # post" "\<forall>x \<in> set pre. ?skip x" "?hit"
        by blast
      with True show "\<exists>pre post. a # routes = pre @ r # post \<and> (\<forall>x \<in> set pre. ?skip x) \<and> ?hit"
        by (intro exI[of _ "a # pre"] exI[of _ post]) auto
    qed
    ultimately show ?thesis using Cons by simp
  next
    case False
    then obtain b0 where a: "route_method a = m" "matchPath (route_path a) path = Some b0" by auto
    then have l: "match (a # routes) m path = Some (a, b0)" by simp
    show ?thesis
    proof
      assume "match (a # routes) m path = Some (r, bound)"
      with l a show "\<exists>pre post. a # routes = pre @ r # post \<and> (\<forall>x \<in> set pre. ?skip x) \<and> ?hit"
        by (intro exI[of _ "[]"] exI[of _ routes]) auto
    next
      assume "\<exists>pre post. a # routes = pre @ r # post \<and> (\<forall>x \<in> set pre. ?skip x) \<and> ?hit"
      then obtain pre post where h: "a # routes = pre @ r # post" "\<forall>x \<in> set pre. ?skip x" "?hit"
        by blast
      have "pre = []"
      proof (cases pre)
        case (Cons x xs)
        with h(1) have "x = a" by simp
        with h(2) Cons a show ?thesis by auto
      qed simp
      with h a l show "match (a # routes) m path = Some (r, bound)" by simp
    qed
  qed
qed

lemma handle_compose:
  "match routes (http_method (req c)) (pathname (req c)) = Some (r, bound) \<Longrightarrow>
   handle routes c w = compose (route_middlewares r) (c\<lparr>params := Some bound\<rparr>) (route_handler r) w"
  by (simp add: handle_def split: list.splits)

lemma match_analytics:
  "match (router demo_platform) ''GET'' ''/api/urls/abc123/analytics'' =
     Some (mk_route ''GET'' ''/api/urls/:code/analytics'' getAnalytics [authenticate demo_platform],
           [''code'' \<mapsto> ''abc123''])"
  by (simp add: router_def mk_route_def matchPath_def segments_def startsWith_colon_def)

lemma match_put: "match (router demo_platform) ''PUT'' ''/abc123'' = None"
  by (simp add: router_def mk_route_def)

text \<open>
  C5. A pattern matches a path exactly when both have the same number of segments and
  every literal segment of the pattern equals the segment of the path at its place;
  a parameter segment matches whatever stands there and binds it to its name (when a
  name occurs twice, the last occurrence is the one bound). \<open>match\<close> returns the first
  registered route whose method is the request's and whose pattern matches: every route
  before it has another method or a pattern that does not match. With no such route,
  \<open>handle\<close> answers 404 with the JSON error "Route not found"; otherwise it stores the
  bound parameters in the context and runs the route's middlewares around its handler.
\<close>

theorem router_first_match:
  "(matchPath pattern path \<noteq> None \<longleftrightarrow>
      length (segments pattern) = length (segments path) \<and>
      (\<forall>i < length (segments pattern).
         \<not> startsWith_colon (segments pattern ! i) \<longrightarrow> segments pattern ! i = segments path ! i)) \<and>
   (matchPath pattern path = Some bound \<and> i < length (segments pattern) \<and>
    startsWith_colon (segments pattern ! i) \<and>
    (\<forall>j. i < j \<and> j < length (segments pattern) \<longrightarrow> segments pattern ! j \<noteq> segments pattern ! i) \<longrightarrow>
      bound (tl (segments pattern ! i)) = Some (segments path ! i)) \<and>
   (match routes m path = Some (r, bound) \<longleftrightarrow>
      (\<exists>pre post. routes = pre @ r # post \<and>
         (\<forall>x \<in> set pre. route_method x \<noteq> m \<or> matchPath (route_path x) path = None) \<and>
         route_method r = m \<and> matchPath (route_path r) path = Some bound)) \<and>
   (match routes m path = None \<longleftrightarrow>
      (\<forall>x \<in> set routes. route_method x \<noteq> m \<or> matchPath (route_path x) path = None)) \<and>
   (match routes (http_method (req c)) (pathname (req c)) = None \<longrightarrow>
      handle routes c w = (Inr (Response_json (Failure ''Route not found'' None) 404), w)) \<and>
   (match routes (http_method (req c)) (pathname (req c)) = Some (r, bound) \<longrightarrow>
      handle routes c w =
        compose (route_middlewares r) (c\<lparr>params := Some bound\<rparr>) (route_handler r) w)"
proof (intro conjI impI)
  show "matchPath pattern path \<noteq> None \<longleftrightarrow>
      length (segments pattern) = length (segments path) \<and>
      (\<forall>i < length (segments pattern).
         \<not> startsWith_colon (segments pattern ! i) \<longrightarrow> segments pattern ! i = segments path ! i)"
    using matchParts_literals[of "segments pattern" "segments path" Map.empty]
    by (auto simp: matchPath_def Let_def)
next
  assume h: "matchPath pattern path = Some bound \<and> i < length (segments pattern) \<and>
    startsWith_colon (segments pattern ! i) \<and>
    (\<forall>j. i < j \<and> j < length (segments pattern) \<longrightarrow> segments pattern ! j \<noteq> segments pattern ! i)"
  then have len: "length (segments pattern) = length (segments path)"
    and m: "matchParts (segments pattern) (segments path) Map.empty = Some bound"
    by (auto simp: matchPath_def Let_def split: if_splits)
  from matchParts_binds[OF len m] h show "bound (tl (segments pattern ! i)) = Some (segments path ! i)"
    by blast
next
  show "match routes m path = Some (r, bound) \<longleftrightarrow>
      (\<exists>pre post. routes = pre @ r # post \<and>
         (\<forall>x \<in> set pre. route_method x \<noteq> m \<or> matchPath (route_path x) path = None) \<and>
         route_method r = m \<and> matchPath (route_path r) path = Some bound)"
    by (rule match_Some)
next
  show "match routes m path = None \<longleftrightarrow>
      (\<forall>x \<in> set routes. route_method x \<noteq> m \<or> matchPath (route_path x) path = None)"
    by (rule match_None)
next
  assume "match routes (http_method (req c)) (pathname (req c)) = None"
  then show "handle routes c w = (Inr (Response_json (Failure ''Route not found'' None) 404), w)"
    by (simp add: handle_def)
next
  assume "match routes (http_method (req c)) (pathname (req c)) = Some (r, bound)"
  then show "handle routes c w =
        compose (route_middlewares r) (c\<lparr>params := Some bound\<rparr>) (route_handler r) w"
    by (rule handle_compose)
qed

text \<open>The analytics route of the program's route table, and a method no route has.\<close>

theorem router_first_match_witness:
  "matchPath ''/api/urls/:code/analytics'' ''/api/urls/abc123/analytics'' = Some [''code'' \<mapsto> ''abc123''] \<and>
   segments ''/api/urls/abc123/analytics'' ! 2 = ''abc123'' \<and>
   match (router demo_platform) ''GET'' ''/api/urls/abc123/analytics'' =
     Some (mk_route ''GET'' ''/api/urls/:code/analytics'' getAnalytics [authenticate demo_platform],
           [''code'' \<mapsto> ''abc123'']) \<and>
   handle (router demo_platform)
     (new_ctx (demo_request ''GET'' ''/api/urls/abc123/analytics'' [] None)) empty_world =
     compose [authenticate demo_platform]
       ((new_ctx (demo_request ''GET'' ''/api/urls/abc123/analytics'' [] None))
          \<lparr>params := Some [''code'' \<mapsto> ''abc123'']\<rparr>)
       getAnalytics empty_world \<and>
   handle (router demo_platform) (new_ctx (demo_request ''PUT'' ''/abc123'' [] None)) empty_world =
     (Inr (Response_json (Failure ''Route not found'' None) 404), empty_world)"
  using router_first_match[where pattern = "''/api/urls/:code/analytics''"
          and path = "''/api/urls/abc123/analytics''" and bound = "[''code'' \<mapsto> ''abc123'']"
          and i = 2 and routes = "router demo_platform" and m = "''GET''"
          and r = "mk_route ''GET'' ''/api/urls/:code/analytics'' getAnalytics [authenticate demo_platform]"
          and c = "new_ctx (demo_request ''GET'' ''/api/urls/abc123/analytics'' [] None)"
          and w = empty_world]
        router_first_match[where pattern = "''/api/urls/:code/analytics''"
          and path = "''/abc123''" and bound = "[''code'' \<mapsto> ''abc123'']"
          and i = 2 and routes = "router demo_platform" and m = "''PUT''"
          and r = "mk_route ''GET'' ''/api/urls/:code/analytics'' getAnalytics [authenticate demo_platform]"
          and c = "new_ctx (demo_request ''PUT'' ''/abc123'' [] None)"
          and w = empty_world]
        match_analytics match_put
  by (simp add: new_ctx_def demo_request_def mk_route_def matchPath_def segments_def
        startsWith_colon_def)

section \<open>Redirects\<close>

lemma find_demo:
  "findUrlByShortCode demo_world ''github'' = Some github_row"
  "findUrlByShortCode demo_world ''anon01'' = Some anon_row"
  "findUrlByShortCode demo_world ''nothing'' = None"
  "findUrlByShortCode (demo_world\<lparr>clock := t\<rparr>) ''anon01'' = Some anon_row"
  by (simp_all add: findUrlByShortCode_def demo_world_def github_row_def anon_row_def)

lemma code_param_visit: "code_param (visit code) = Some code" "code_param ((visit code)\<lparr>user := u\<rparr>) = Some code"
  by (simp_all add: code_param_def visit_def)

text \<open>The router binds only non-empty segments, so a bound short code is never empty.\<close>

lemma segments_not_empty: "s \<in> set (segments p) \<Longrightarrow> s \<noteq> []"
  by (simp add: segments_def)

lemma find_code_map:
  "(\<And>x. short_code (f x) = short_code x) \<Longrightarrow>
   find (\<lambda>r. short_code r = code) (map f xs) = map_option f (find (\<lambda>r. short_code r = code) xs)"
  by (induction xs) auto

lemma findUrl_after_click:
  "findUrlByShortCode w code = Some r \<Longrightarrow>
   findUrlByShortCode (incrementClicks (urls_id r) (logClick i ua ref ip w)) code =
     Some (r\<lparr>clicks := clicks r + 1\<rparr>)"
  unfolding findUrlByShortCode_def incrementClicks_def logClick_def
  by (simp add: find_code_map)

lemma redirect_missing:
  "code_param c = Some code \<Longrightarrow> code \<noteq> [] \<Longrightarrow> findUrlByShortCode w code = None \<Longrightarrow>
   redirect c w = (Inr (Response_text ''URL not found'' 404), w)"
  by (simp add: redirect_def)

lemma redirect_expired:
  "code_param c = Some code \<Longrightarrow> code \<noteq> [] \<Longrightarrow> findUrlByShortCode w code = Some r \<Longrightarrow>
   expires_at r = Some e \<Longrightarrow> e < clock w \<Longrightarrow>
   redirect c w = (Inr (Response_text ''URL has expired'' 410), w)"
  by (simp add: redirect_def)

lemma redirect_live:
  "code_param c = Some code \<Longrightarrow> code \<noteq> [] \<Longrightarrow> findUrlByShortCode w code = Some r \<Longrightarrow>
   \<forall>e. expires_at r = Some e \<longrightarrow> clock w \<le> e \<Longrightarrow>
   redirect c w =
     (Inr (Response_redirect (original_url r) 302),
      incrementClicks (urls_id r)
        (logClick (urls_id r) (header_or_null c ''user-agent'') (header_or_null c ''referer'')
           (client_ip c) w))"
  by (auto simp: redirect_def Let_def split: option.splits)

text \<open>
  C7. For a request with a short code: when no row has the code, the answer is 404;
  when the row's expiration is set and lies before the current time, the answer is 410
  and nothing is written; when the expiration is unset or not before the current time
  (in the future, or exactly now), the answer is a 302 redirect to the original URL.
\<close>

theorem redirect_expiration:
  "code_param c = Some code \<and> code \<noteq> [] \<longrightarrow>
     (findUrlByShortCode w code = None \<longrightarrow>
        redirect c w = (Inr (Response_text ''URL not found'' 404), w)) \<and>
     (\<forall>r. findUrlByShortCode w code = Some r \<longrightarrow>
        ((\<exists>e. expires_at r = Some e \<and> e < clock w) \<longrightarrow>
           redirect c w = (Inr (Response_text ''URL has expired'' 410), w)) \<and>
        (expires_at r = None \<or> (\<exists>e. expires_at r = Some e \<and> clock w \<le> e) \<longrightarrow>
           fst (redirect c w) = Inr (Response_redirect (original_url r) 302)))"
proof (intro impI conjI allI)
  assume h: "code_param c = Some code \<and> code \<noteq> []"
  {
    assume "findUrlByShortCode w code = None"
    with h show "redirect c w = (Inr (Response_text ''URL not found'' 404), w)"
      by (simp add: redirect_missing)
  }
  fix r
  assume r: "findUrlByShortCode w code = Some r"
  {
    assume "\<exists>e. expires_at r = Some e \<and> e < clock w"
    with h r show "redirect c w = (Inr (Response_text ''URL has expired'' 410), w)"
      by (auto simp: redirect_expired)
  }
  assume "expires_at r = None \<or> (\<exists>e. expires_at r = Some e \<and> clock w \<le> e)"
  then have "\<forall>e. expires_at r = Some e \<longrightarrow> clock w \<le> e" by auto
  with h r show "fst (redirect c w) = Inr (Response_redirect (original_url r) 302)"
    by (simp add: redirect_live)
qed

text \<open>An absent code, the anonymous URL after and before its expiration, and the URL without one.\<close>

theorem redirect_expiration_witness:
  "redirect (visit ''nothing'') demo_world = (Inr (Response_text ''URL not found'' 404), demo_world) \<and>
   redirect (visit ''anon01'') (demo_world\<lparr>clock := 2000\<rparr>) =
     (Inr (Response_text ''URL has expired'' 410), demo_world\<lparr>clock := 2000\<rparr>) \<and>
   fst (redirect (visit ''anon01'') demo_world) = Inr (Response_redirect ''https://example.com'' 302) \<and>
   fst (redirect (visit ''github'') demo_world) = Inr (Response_redirect ''https://github.com'' 302)"
  using redirect_expiration[where c = "visit ''nothing''" and code = "''nothing''" and w = demo_world]
        redirect_expiration[where c = "visit ''anon01''" and code = "''anon01''"
          and w = "demo_world\<lparr>clock := 2000\<rparr>"]
        redirect_expiration[where c = "visit ''anon01''" and code = "''anon01''" and w = demo_world]
        redirect_expiration[where c = "visit ''github''" and code = "''github''" and w = demo_world]
  by (simp add: find_demo code_param_visit)
     (simp add: anon_row_def github_row_def demo_world_def empty_world_def)

lemma redirect_run_clicks:
  assumes "code \<noteq> []"
    and "findUrlByShortCode w code = Some r"
    and "\<forall>x \<in> set rs. code_param (fst x) = Some code \<and> (\<forall>e. expires_at r = Some e \<longrightarrow> snd x \<le> e)"
  shows "fst (redirect_run rs w) = replicate (length rs) (Inr (Response_redirect (original_url r) 302)) \<and>
         findUrlByShortCode (snd (redirect_run rs w)) code = Some (r\<lparr>clicks := clicks r + length rs\<rparr>) \<and>
         (\<exists>new. analytics (snd (redirect_run rs w)) = analytics w @ new \<and> length new = length rs \<and>
                list_all (\<lambda>a. url_id a = urls_id r) new)"
  using assms(2,3)
proof (induction rs arbitrary: w r)
  case Nil
  then show ?case by simp
next
  case (Cons x rs)
  obtain c t where x: "x = (c, t)" by (cases x)
  let ?w = "w\<lparr>clock := t\<rparr>"
  let ?w1 = "incrementClicks (urls_id r)
        (logClick (urls_id r) (header_or_null c ''user-agent'') (header_or_null c ''referer'')
           (client_ip c) ?w)"
  let ?r1 = "r\<lparr>clicks := clicks r + 1\<rparr>"
  have f: "findUrlByShortCode ?w code = Some r"
    using Cons.prems(1) by (simp add: findUrlByShortCode_def)
  have cp: "code_param c = Some code" and live: "\<forall>e. expires_at r = Some e \<longrightarrow> clock ?w \<le> e"
    using Cons.prems(2) x by auto
  have step: "redirect c ?w = (Inr (Response_redirect (original_url r) 302), ?w1)"
    by (rule redirect_live[OF cp assms(1) f live])
  have f1: "findUrlByShortCode ?w1 code = Some ?r1"
    by (rule findUrl_after_click[OF f])
  have rest: "\<forall>x \<in> set rs. code_param (fst x) = Some code \<and> (\<forall>e. expires_at ?r1 = Some e \<longrightarrow> snd x \<le> e)"
    using Cons.prems(2) by simp
  note IH = Cons.IH[OF f1 rest]
  have an: "analytics ?w1 = analytics w @
      [\<lparr>analytics_id = Suc (analytics_seq w), url_id = urls_id r,
        user_agent = header_or_null c ''user-agent'', referer = header_or_null c ''referer'',
        ip_address = client_ip c, clicked_at = t\<rparr>]"
    by (simp add: incrementClicks_def logClick_def)
  from IH obtain new where new: "analytics (snd (redirect_run rs ?w1)) = analytics ?w1 @ new"
    "length new = length rs" "list_all (\<lambda>a. url_id a = urls_id r) new" by auto
  have "\<exists>new'. analytics (snd (redirect_run (x # rs) w)) = analytics w @ new' \<and>
      length new' = length (x # rs) \<and> list_all (\<lambda>a. url_id a = urls_id r) new'"
    using new an x step
    by (intro exI[of _ "\<lparr>analytics_id = Suc (analytics_seq w), url_id = urls_id r,
        user_agent = header_or_null c ''user-agent'', referer = header_or_null c ''referer'',
        ip_address = client_ip c, clicked_at = t\<rparr> # new"]) (simp add: Let_def)
  moreover have "fst (redirect_run (x # rs) w) =
      replicate (length (x # rs)) (Inr (Response_redirect (original_url r) 302))"
    using IH x step by (simp add: Let_def)
  moreover have "findUrlByShortCode (snd (redirect_run (x # rs) w)) code =
      Some (r\<lparr>clicks := clicks r + length (x # rs)\<rparr>)"
    using IH x step by (simp add: Let_def)
  ultimately show ?case by blast
qed

text \<open>
  C8. Let a row have the short code, and let \<open>N\<close> redirect requests for the code come in
  a row, none of them after the row's expiration. Then every one of them is answered
  with the 302 redirect, the row's click counter has grown by exactly \<open>N\<close>, and the
  analytics table has grown by exactly \<open>N\<close> rows, all of them for this URL. A single
  redirect is the case \<open>N = 1\<close>.
\<close>

theorem redirect_counts:
  "code \<noteq> [] \<and> findUrlByShortCode w code = Some r \<and>
   (\<forall>x \<in> set rs. code_param (fst x) = Some code \<and> (\<forall>e. expires_at r = Some e \<longrightarrow> snd x \<le> e)) \<longrightarrow>
     fst (redirect_run rs w) = replicate (length rs) (Inr (Response_redirect (original_url r) 302)) \<and>
     findUrlByShortCode (snd (redirect_run rs w)) code = Some (r\<lparr>clicks := clicks r + length rs\<rparr>) \<and>
     (\<exists>new. analytics (snd (redirect_run rs w)) = analytics w @ new \<and> length new = length rs \<and>
            list_all (\<lambda>a. url_id a = urls_id r) new)"
  using redirect_run_clicks[of code w r rs] by blast

text \<open>Three redirects to the anonymous URL, the last at the very time of its expiration.\<close>

theorem redirect_counts_witness:
  "fst (redirect_run [(visit ''anon01'', 600), (visit ''anon01'', 700), (visit ''anon01'', 1000)] demo_world) =
     [Inr (Response_redirect ''https://example.com'' 302),
      Inr (Response_redirect ''https://example.com'' 302),
      Inr (Response_redirect ''https://example.com'' 302)] \<and>
   findUrlByShortCode
     (snd (redirect_run [(visit ''anon01'', 600), (visit ''anon01'', 700), (visit ''anon01'', 1000)] demo_world))
     ''anon01'' = Some (anon_row\<lparr>clicks := 6\<rparr>) \<and>
   length (analytics
     (snd (redirect_run [(visit ''anon01'', 600), (visit ''anon01'', 700), (visit ''anon01'', 1000)] demo_world))) = 3"
  using redirect_counts[where code = "''anon01''" and w = demo_world and r = anon_row
          and rs = "[(visit ''anon01'', 600), (visit ''anon01'', 700), (visit ''anon01'', 1000)]"]
  by (simp add: find_demo code_param_visit)
     (auto simp add: anon_row_def demo_world_def empty_world_def)

section \<open>Ownership\<close>

text \<open>
  The column \<open>short_code\<close> is \<open>UNIQUE\<close>: no two rows share a code. The statements keep it so.
\<close>

lemma createUrl_unique:
  "distinct (map short_code (urls w)) \<Longrightarrow> distinct (map short_code (urls (snd (createUrl code url uid e w))))"
  by (auto simp: createUrl_def list_ex_iff)

lemma incrementClicks_unique:
  "distinct (map short_code (urls w)) \<Longrightarrow> distinct (map short_code (urls (incrementClicks i w)))"
proof -
  have "short_code \<circ> (\<lambda>r::urls_row. if urls_id r = i then r\<lparr>clicks := clicks r + 1\<rparr> else r) =
        short_code"
    by (rule ext) simp
  then show "distinct (map short_code (urls w)) \<Longrightarrow> distinct (map short_code (urls (incrementClicks i w)))"
    by (simp add: incrementClicks_def)
qed

lemma deleteUrl_unique:
  "distinct (map short_code (urls w)) \<Longrightarrow> distinct (map short_code (urls (snd (deleteUrl code uid w))))"
  by (simp add: deleteUrl_def distinct_map_filter)

lemma deleteUrl_not_owner:
  assumes "distinct (map short_code (urls w))" "findUrlByShortCode w code = Some r"
    "user_id r \<noteq> Some uid"
  shows "deleteUrl code uid w = (0, w)"
proof -
  have r: "r \<in> set (urls w)" "short_code r = code"
    using assms(2) by (auto simp: findUrlByShortCode_def find_Some_iff)
  have "\<not> (short_code x = code \<and> user_id x = Some uid)" if "x \<in> set (urls w)" for x
  proof
    assume a: "short_code x = code \<and> user_id x = Some uid"
    from assms(1) have "inj_on short_code (set (urls w))" by (simp add: distinct_map)
    with that r a have "x = r" by (auto dest: inj_onD)
    with a assms(3) show False by simp
  qed
  then have "filter (\<lambda>r. short_code r = code \<and> user_id r = Some uid) (urls w) = []"
    "filter (\<lambda>r. \<not> (short_code r = code \<and> user_id r = Some uid)) (urls w) = urls w"
    by (auto simp: filter_empty_conv filter_id_conv)
  then show ?thesis by (simp add: deleteUrl_def)
qed

lemma deleteUrl_missing:
  assumes "findUrlByShortCode w code = None"
  shows "deleteUrl code uid w = (0, w)"
proof -
  have "\<not> (short_code x = code \<and> user_id x = Some uid)" if "x \<in> set (urls w)" for x
    using assms that by (auto simp: findUrlByShortCode_def find_None_iff)
  then have "filter (\<lambda>r. short_code r = code \<and> user_id r = Some uid) (urls w) = []"
    "filter (\<lambda>r. \<not> (short_code r = code \<and> user_id r = Some uid)) (urls w) = urls w"
    by (auto simp: filter_empty_conv filter_id_conv)
  then show ?thesis by (simp add: deleteUrl_def)
qed

lemma getAnalytics_not_owner:
  "user c = Some a \<Longrightarrow> code_param c = Some code \<Longrightarrow> code \<noteq> [] \<Longrightarrow>
   findUrlByShortCode w code = Some r \<Longrightarrow> user_id r \<noteq> Some (userId a) \<Longrightarrow>
   getAnalytics c w = (Inr (Response_json (errorResponse ''Unauthorized'') 403), w)"
  by (simp add: getAnalytics_def)

lemma deleteUrl_handler_404:
  "user c = Some a \<Longrightarrow> code_param c = Some code \<Longrightarrow> code \<noteq> [] \<Longrightarrow>
   deleteUrl code (userId a) w = (0, w) \<Longrightarrow>
   deleteUrl_handler c w =
     (Inr (Response_json (errorResponse ''URL not found or unauthorized'') 404), w)"
  by (simp add: deleteUrl_handler_def)

text \<open>
  C9. Let user A be authenticated and let the row of a short code be owned by another
  user B, in a table whose short codes are unique. Then A's analytics request for the
  code is answered 403 and A's delete request is answered 404, both leaving the world
  as it was (the delete removes no row). A delete request of any authenticated user for
  a code that no row has gets the very same answer and leaves the same world.
\<close>

theorem ownership_isolation:
  "distinct (map short_code (urls w)) \<and> user c = Some a \<and> code_param c = Some code \<and> code \<noteq> [] \<and>
   findUrlByShortCode w code = Some r \<and> user_id r = Some b \<and> b \<noteq> userId a \<longrightarrow>
     getAnalytics c w = (Inr (Response_json (errorResponse ''Unauthorized'') 403), w) \<and>
     deleteUrl_handler c w =
       (Inr (Response_json (errorResponse ''URL not found or unauthorized'') 404), w) \<and>
     (\<forall>c' a' code'. user c' = Some a' \<and> code_param c' = Some code' \<and> code' \<noteq> [] \<and>
         findUrlByShortCode w code' = None \<longrightarrow>
         deleteUrl_handler c' w = deleteUrl_handler c w)"
proof (intro impI)
  assume h: "distinct (map short_code (urls w)) \<and> user c = Some a \<and> code_param c = Some code \<and>
    code \<noteq> [] \<and> findUrlByShortCode w code = Some r \<and> user_id r = Some b \<and> b \<noteq> userId a"
  then have no: "user_id r \<noteq> Some (userId a)" by auto
  from h have del: "deleteUrl code (userId a) w = (0, w)"
    by (intro deleteUrl_not_owner[OF _ _ no]) auto
  have d: "deleteUrl_handler c w =
       (Inr (Response_json (errorResponse ''URL not found or unauthorized'') 404), w)"
    using h del by (intro deleteUrl_handler_404) auto
  have "deleteUrl_handler c' w = deleteUrl_handler c w"
    if "user c' = Some a' \<and> code_param c' = Some code' \<and> code' \<noteq> [] \<and> findUrlByShortCode w code' = None"
    for c' a' code'
  proof -
    from that have "deleteUrl code' (userId a') w = (0, w)" by (intro deleteUrl_missing) auto
    with that have "deleteUrl_handler c' w =
       (Inr (Response_json (errorResponse ''URL not found or unauthorized'') 404), w)"
      by (intro deleteUrl_handler_404) auto
    with d show ?thesis by simp
  qed
  moreover have "getAnalytics c w = (Inr (Response_json (errorResponse ''Unauthorized'') 403), w)"
    using h no by (intro getAnalytics_not_owner) auto
  ultimately show "getAnalytics c w = (Inr (Response_json (errorResponse ''Unauthorized'') 403), w) \<and>
     deleteUrl_handler c w =
       (Inr (Response_json (errorResponse ''URL not found or unauthorized'') 404), w) \<and>
     (\<forall>c' a' code'. user c' = Some a' \<and> code_param c' = Some code' \<and> code' \<noteq> [] \<and>
         findUrlByShortCode w code' = None \<longrightarrow>
         deleteUrl_handler c' w = deleteUrl_handler c w)"
    using d by blast
qed

text \<open>User 1 asks for the URL of user 2, and deletes a code that does not exist.\<close>

theorem ownership_isolation_witness:
  "getAnalytics ((visit ''github'')\<lparr>user := Some alice\<rparr>) demo_world =
     (Inr (Response_json (errorResponse ''Unauthorized'') 403), demo_world) \<and>
   deleteUrl_handler ((visit ''github'')\<lparr>user := Some alice\<rparr>) demo_world =
     (Inr (Response_json (errorResponse ''URL not found or unauthorized'') 404), demo_world) \<and>
   deleteUrl_handler ((visit ''nothing'')\<lparr>user := Some alice\<rparr>) demo_world =
     deleteUrl_handler ((visit ''github'')\<lparr>user := Some alice\<rparr>) demo_world"
proof -
  let ?c = "(visit ''github'')\<lparr>user := Some alice\<rparr>"
  let ?c' = "(visit ''nothing'')\<lparr>user := Some alice\<rparr>"
  have h: "distinct (map short_code (urls demo_world)) \<and> user ?c = Some alice \<and>
      code_param ?c = Some ''github'' \<and> ''github'' \<noteq> [] \<and>
      findUrlByShortCode demo_world ''github'' = Some github_row \<and>
      user_id github_row = Some 2 \<and> 2 \<noteq> userId alice"
    by (simp add: find_demo code_param_visit)
       (simp add: github_row_def anon_row_def demo_world_def alice_def)
  have h': "user ?c' = Some alice \<and> code_param ?c' = Some ''nothing'' \<and> ''nothing'' \<noteq> [] \<and>
      findUrlByShortCode demo_world ''nothing'' = None"
    by (simp add: find_demo code_param_visit)
  from ownership_isolation[where w = demo_world and c = ?c and a = alice and code = "''github''"
      and r = github_row and b = 2] h
  have all: "getAnalytics ?c demo_world =
        (Inr (Response_json (errorResponse ''Unauthorized'') 403), demo_world) \<and>
      deleteUrl_handler ?c demo_world =
        (Inr (Response_json (errorResponse ''URL not found or unauthorized'') 404), demo_world) \<and>
      (\<forall>c' a' code'. user c' = Some a' \<and> code_param c' = Some code' \<and> code' \<noteq> [] \<and>
          findUrlByShortCode demo_world code' = None \<longrightarrow>
          deleteUrl_handler c' demo_world = deleteUrl_handler ?c demo_world)"
    by (rule mp)
  then have "deleteUrl_handler ?c' demo_world = deleteUrl_handler ?c demo_world"
    using h' by blast
  with all show ?thesis by simp
qed

text \<open>
  C10. Let the row of a short code have no owner, in a table whose short codes are
  unique. Then for every authenticated user the analytics request for the code is
  answered 403 and the delete request 404; the row is still in the table after the
  delete request, and it is in no user's list of URLs.
\<close>

theorem anonymous_url_locked:
  "distinct (map short_code (urls w)) \<and> user c = Some a \<and> code_param c = Some code \<and> code \<noteq> [] \<and>
   findUrlByShortCode w code = Some r \<and> user_id r = None \<longrightarrow>
     getAnalytics c w = (Inr (Response_json (errorResponse ''Unauthorized'') 403), w) \<and>
     deleteUrl_handler c w =
       (Inr (Response_json (errorResponse ''URL not found or unauthorized'') 404), w) \<and>
     r \<in> set (urls (snd (deleteUrl_handler c w))) \<and>
     r \<notin> set (getUserUrls w (userId a))"
proof (intro impI)
  assume h: "distinct (map short_code (urls w)) \<and> user c = Some a \<and> code_param c = Some code \<and>
    code \<noteq> [] \<and> findUrlByShortCode w code = Some r \<and> user_id r = None"
  then have no: "user_id r \<noteq> Some (userId a)" by auto
  from h have del: "deleteUrl code (userId a) w = (0, w)"
    by (intro deleteUrl_not_owner[OF _ _ no]) auto
  have d: "deleteUrl_handler c w =
       (Inr (Response_json (errorResponse ''URL not found or unauthorized'') 404), w)"
    using h del by (intro deleteUrl_handler_404) auto
  have g: "getAnalytics c w = (Inr (Response_json (errorResponse ''Unauthorized'') 403), w)"
    using h no by (intro getAnalytics_not_owner) auto
  have r: "r \<in> set (urls w)"
    using h by (auto simp: findUrlByShortCode_def find_Some_iff)
  have "r \<notin> set (getUserUrls w (userId a))"
    using h by (simp add: getUserUrls_def)
  with d g r show "getAnalytics c w = (Inr (Response_json (errorResponse ''Unauthorized'') 403), w) \<and>
     deleteUrl_handler c w =
       (Inr (Response_json (errorResponse ''URL not found or unauthorized'') 404), w) \<and>
     r \<in> set (urls (snd (deleteUrl_handler c w))) \<and>
     r \<notin> set (getUserUrls w (userId a))"
    by simp
qed

text \<open>User 1 and the anonymous URL.\<close>

theorem anonymous_url_locked_witness:
  "getAnalytics ((visit ''anon01'')\<lparr>user := Some alice\<rparr>) demo_world =
     (Inr (Response_json (errorResponse ''Unauthorized'') 403), demo_world) \<and>
   deleteUrl_handler ((visit ''anon01'')\<lparr>user := Some alice\<rparr>) demo_world =
     (Inr (Response_json (errorResponse ''URL not found or unauthorized'') 404), demo_world) \<and>
   anon_row \<in> set (urls (snd (deleteUrl_handler ((visit ''anon01'')\<lparr>user := Some alice\<rparr>) demo_world))) \<and>
   anon_row \<notin> set (getUserUrls demo_world 1)"
  using anonymous_url_locked[where w = demo_world and c = "(visit ''anon01'')\<lparr>user := Some alice\<rparr>"
          and a = alice and code = "''anon01''" and r = anon_row]
  by (simp add: find_demo code_param_visit)
     (auto simp add: github_row_def anon_row_def demo_world_def empty_world_def alice_def)

section \<open>Short codes without a custom code\<close>

lemma generate_keeps: "snd (generateShortCode n w) = w\<lparr>random := random (snd (generateShortCode n w))\<rparr>"
  by (simp add: generateShortCode_def)

lemma unused_random [simp]: "unused (w\<lparr>random := f\<rparr>) = unused w"
  by (rule ext) (simp add: unused_def findUrlByShortCode_def)

lemma unique_loop_spec:
  "k \<le> 10 \<Longrightarrow> unique_loop c k w = (code, att, w1) \<Longrightarrow>
   w1 = w\<lparr>random := random w1\<rparr> \<and>
   (case find (unused w) (take (10 - k) (c # generated (9 - k) w)) of
      None \<Rightarrow> att = 10
    | Some x \<Rightarrow> att < 10 \<and> code = x)"
proof (induction c k w arbitrary: code att w1 rule: unique_loop.induct)
  case (1 shortCode attempts w)
  show ?case
  proof (cases "attempts < 10")
    case False
    with "1.prems" show ?thesis by simp
  next
    case lt: True
    show ?thesis
    proof (cases "findUrlByShortCode w shortCode")
      case None
      with lt "1.prems" have "code = shortCode" "att = attempts" "w1 = w" by simp_all
      moreover from lt obtain n where "10 - attempts = Suc n" by (cases "10 - attempts") auto
      ultimately show ?thesis using None lt by (simp add: unused_def)
    next
      case (Some existing)
      obtain c' w' where g: "generateShortCode 6 w = (c', w')" by (cases "generateShortCode 6 w")
      from "1.prems" lt Some g have rec: "unique_loop c' (attempts + 1) w' = (code, att, w1)"
        by simp
      from lt have le: "attempts + 1 \<le> 10" by simp
      note IH = "1.IH"[OF lt Some g[symmetric] le rec]
      from g generate_keeps[of 6 w] have w': "w' = w\<lparr>random := random w'\<rparr>" by simp
      then have uw: "unused w' = unused w" by (metis unused_random)
      have w1: "w1 = w\<lparr>random := random w1\<rparr>"
      proof -
        from IH have "w1 = w'\<lparr>random := random w1\<rparr>" by simp
        also have "\<dots> = w\<lparr>random := random w1\<rparr>" by (subst w') simp
        finally show ?thesis .
      qed
      from lt obtain n where n: "10 - attempts = Suc n" by (cases "10 - attempts") auto
      have nu: "\<not> unused w shortCode" using Some by (simp add: unused_def)
      show ?thesis
      proof (cases n)
        case 0
        with n have a9: "attempts = 9" by simp
        with IH have "att = 10" by simp
        with w1 a9 nu show ?thesis by simp
      next
        case (Suc n')
        with n have e: "10 - attempts = Suc (Suc n')" "9 - attempts = Suc n'"
          "10 - (attempts + 1) = Suc n'" "9 - (attempts + 1) = n'"
          by simp_all
        have gen: "generated (Suc n') w = c' # generated n' w'"
          using g by simp
        have L: "take (10 - attempts) (shortCode # generated (9 - attempts) w) =
                 shortCode # take (Suc n') (c' # generated n' w')"
          unfolding e gen by simp
        from IH have IH2: "case find (unused w) (take (Suc n') (c' # generated n' w')) of
            None \<Rightarrow> att = 10 | Some x \<Rightarrow> att < 10 \<and> code = x"
          unfolding e uw by simp
        have "find (unused w) (shortCode # take (Suc n') (c' # generated n' w')) =
              find (unused w) (take (Suc n') (c' # generated n' w'))"
          using nu by simp
        with IH2 w1 show ?thesis unfolding L by simp
      qed
    qed
  qed
qed

lemma expiration_throws:
  "(\<exists>e. expiration now d = Inl e) \<longleftrightarrow>
     (\<exists>n. d = Some n \<and> 0 < n \<and> 8640000000000000 < \<bar>now + n * 86400000\<bar>)"
  by (auto simp: expiration_def toISOString_def setDate_plus_def TimeClip_def split: option.splits)

lemma insertShortUrl_spec:
  assumes "findUrlByShortCode w code = None"
  shows "insertShortUrl P c code u d w =
     (case expiration (clock w) d of
        Inl e \<Rightarrow> (Inr (Response_json (errorResponse ''Failed to create short URL'') 500), w)
      | Inr expiry \<Rightarrow>
          (Inr (Response_json (successResponse
                  (DCreated code ((baseUrl P @ ''/'') @ code) u expiry)
                  ''URL shortened successfully'') 201),
           w\<lparr>urls := urls w @
                 [\<lparr>urls_id = Suc (urls_seq w), short_code = code, original_url = u,
                   user_id = owner_of c, clicks = 0, created_at = clock w, expires_at = expiry\<rparr>],
             urls_seq := Suc (urls_seq w)\<rparr>))"
proof -
  from assms have "\<not> list_ex (\<lambda>r. short_code r = code) (urls w)"
    by (auto simp: findUrlByShortCode_def find_None_iff list_ex_iff)
  then show ?thesis
    by (simp add: insertShortUrl_def createUrl_def owner_of_def Let_def split: sum.splits)
qed

text \<open>A request that carries no identity stores a row without owner.\<close>

lemma owner_of_anonymous: "user c = None \<Longrightarrow> owner_of c = None"
  by (simp add: owner_of_def)

lemma length_generated: "length (generated n w) = n"
  by (induction n arbitrary: w) (auto split: prod.splits)

text \<open>
  C3 (as amended). Take a creation request whose body has a URL that is valid and no
  custom code. The flow checks the next ten generated codes against the table, in the
  order in which they are generated, and takes the first that no row has. When all ten
  are in use it answers 500 "Failed to generate unique code" and adds no row. Otherwise
  the code it takes was absent from the table when checked, and: when the expiration
  date can be computed, the answer is 201 with this code and the row is added; when
  computing it throws (\<open>expiresInDays\<close> moves the date out of the range of \<open>Date\<close>), the
  answer is 500 "Failed to create short URL" and no row is added.
\<close>

theorem createShortUrl_generated_code:
  "body c = Some (JObject f) \<and> truthy (url_field f) \<and> isValidUrl P (str_of (url_field f)) \<and>
   \<not> truthy (customCode_field f) \<longrightarrow>
     (case find (unused w) (generated 10 w) of
        None \<Rightarrow>
          fst (createShortUrl P c w) =
            Inr (Response_json (errorResponse ''Failed to generate unique code'') 500) \<and>
          urls (snd (createShortUrl P c w)) = urls w
      | Some code \<Rightarrow>
          findUrlByShortCode w code = None \<and> code \<in> set (generated 10 w) \<and>
          (case expiration (clock w) (expiresInDays_field f) of
             Inl e \<Rightarrow>
               fst (createShortUrl P c w) =
                 Inr (Response_json (errorResponse ''Failed to create short URL'') 500) \<and>
               urls (snd (createShortUrl P c w)) = urls w
           | Inr expiry \<Rightarrow>
               fst (createShortUrl P c w) =
                 Inr (Response_json (successResponse
                        (DCreated code ((baseUrl P @ ''/'') @ code) (str_of (url_field f)) expiry)
                        ''URL shortened successfully'') 201) \<and>
               urls (snd (createShortUrl P c w)) = urls w @
                 [\<lparr>urls_id = Suc (urls_seq w), short_code = code,
                   original_url = str_of (url_field f), user_id = owner_of c, clicks = 0,
                   created_at = clock w, expires_at = expiry\<rparr>]))"
proof (intro impI)
  assume h: "body c = Some (JObject f) \<and> truthy (url_field f) \<and>
    isValidUrl P (str_of (url_field f)) \<and> \<not> truthy (customCode_field f)"
  obtain c0 w0 where g: "generateShortCode 6 w = (c0, w0)" by (cases "generateShortCode 6 w")
  obtain code att w1 where u: "unique_loop c0 0 w0 = (code, att, w1)"
    by (cases "unique_loop c0 0 w0")
  from g generate_keeps[of 6 w] have w0: "w0 = w\<lparr>random := random w0\<rparr>" by simp
  then have uw: "unused w0 = unused w" by (metis unused_random)
  have gen: "generated 10 w = c0 # generated 9 w0"
    using g by (simp add: eval_nat_numeral)
  have tk: "take (10 - 0) (c0 # generated (9 - 0) w0) = generated 10 w"
    using length_generated[of 10 w] gen by simp
  from unique_loop_spec[OF _ u] have spec: "w1 = w0\<lparr>random := random w1\<rparr>"
    "case find (unused w) (generated 10 w) of None \<Rightarrow> att = 10 | Some x \<Rightarrow> att < 10 \<and> code = x"
    unfolding tk uw by simp_all
  have w1: "w1 = w\<lparr>random := random w1\<rparr>"
  proof -
    have "w1 = w0\<lparr>random := random w1\<rparr>" by (rule spec(1))
    also have "\<dots> = w\<lparr>random := random w1\<rparr>" by (subst w0) simp
    finally show ?thesis .
  qed
  have facts: "urls w1 = urls w" "urls_seq w1 = urls_seq w" "clock w1 = clock w"
    by (subst w1, simp)+
  have run: "createShortUrl P c w =
      (if att = 10 then
         (Inr (Response_json (errorResponse ''Failed to generate unique code'') 500), w1)
       else insertShortUrl P c code (str_of (url_field f)) (expiresInDays_field f) w1)"
    using h g u by (simp add: createShortUrl_def destructure_def Let_def)
  show "case find (unused w) (generated 10 w) of
        None \<Rightarrow>
          fst (createShortUrl P c w) =
            Inr (Response_json (errorResponse ''Failed to generate unique code'') 500) \<and>
          urls (snd (createShortUrl P c w)) = urls w
      | Some code \<Rightarrow>
          findUrlByShortCode w code = None \<and> code \<in> set (generated 10 w) \<and>
          (case expiration (clock w) (expiresInDays_field f) of
             Inl e \<Rightarrow>
               fst (createShortUrl P c w) =
                 Inr (Response_json (errorResponse ''Failed to create short URL'') 500) \<and>
               urls (snd (createShortUrl P c w)) = urls w
           | Inr expiry \<Rightarrow>
               fst (createShortUrl P c w) =
                 Inr (Response_json (successResponse
                        (DCreated code ((baseUrl P @ ''/'') @ code) (str_of (url_field f)) expiry)
                        ''URL shortened successfully'') 201) \<and>
               urls (snd (createShortUrl P c w)) = urls w @
                 [\<lparr>urls_id = Suc (urls_seq w), short_code = code,
                   original_url = str_of (url_field f), user_id = owner_of c, clicks = 0,
                   created_at = clock w, expires_at = expiry\<rparr>])"
  proof (cases "find (unused w) (generated 10 w)")
    case None
    with spec(2) have "att = 10" by simp
    with run facts None show ?thesis by simp
  next
    case (Some x)
    with spec(2) have a: "att < 10" "code = x" by simp_all
    from Some have x: "unused w x" "x \<in> set (generated 10 w)"
      by (auto simp: find_Some_iff)
    then have free: "findUrlByShortCode w x = None" by (simp add: unused_def)
    then have free1: "findUrlByShortCode w1 x = None"
      using facts by (simp add: findUrlByShortCode_def)
    from run a have "createShortUrl P c w =
        insertShortUrl P c x (str_of (url_field f)) (expiresInDays_field f) w1" by simp
    also note insertShortUrl_spec[OF free1]
    finally show ?thesis using Some x free facts
      by (simp split: sum.splits)
  qed
qed

lemma generated_empty_world: "generated 10 empty_world = replicate 10 ''aaaaaa''"
  by (simp add: eval_nat_numeral generateShortCode_def empty_world_def charAt_def characters_def)

lemma generated_taken_world: "generated 10 taken_world = replicate 10 ''aaaaaa''"
  by (simp add: eval_nat_numeral generateShortCode_def taken_world_def empty_world_def charAt_def characters_def)

lemma find_unused_empty: "find (unused empty_world) (generated 10 empty_world) = Some ''aaaaaa''"
  unfolding generated_empty_world
  by (simp add: eval_nat_numeral unused_def findUrlByShortCode_def empty_world_def)

lemma find_unused_taken: "find (unused taken_world) (generated 10 taken_world) = None"
  unfolding generated_taken_world
  by (simp add: eval_nat_numeral unused_def findUrlByShortCode_def taken_world_def)

lemma shorten_ok:
  "body (shorten ''https://example.com'' d) =
     Some (JObject \<lparr>username_field = None, email_field = None, password_field = None,
                     url_field = Some ''https://example.com'', customCode_field = None,
                     expiresInDays_field = d\<rparr>) \<and>
   truthy (Some ''https://example.com'') \<and> isValidUrl demo_platform ''https://example.com'' \<and>
   \<not> truthy None"
  by (simp add: shorten_def isValidUrl_def demo_platform_def)

text \<open>The sample request in the empty table and in the table that has the code.\<close>

theorem createShortUrl_generated_code_witness:
  "fst (createShortUrl demo_platform (shorten ''https://example.com'' (Some 30)) empty_world) =
     Inr (Response_json (successResponse
            (DCreated ''aaaaaa'' ''http://localhost:3000/aaaaaa'' ''https://example.com''
               (Some 2592000000))
            ''URL shortened successfully'') 201) \<and>
   map short_code
     (urls (snd (createShortUrl demo_platform (shorten ''https://example.com'' (Some 30)) empty_world))) =
     [''aaaaaa''] \<and>
   fst (createShortUrl demo_platform (shorten ''https://example.com'' (Some 30)) taken_world) =
     Inr (Response_json (errorResponse ''Failed to generate unique code'') 500)"
proof -
  let ?f = "\<lambda>d. \<lparr>username_field = None, email_field = None, password_field = None,
                  url_field = Some ''https://example.com'', customCode_field = None,
                  expiresInDays_field = d\<rparr>"
  have e: "expiration (clock empty_world) (Some 30) = Inr (Some 2592000000)"
    by (simp add: expiration_def setDate_plus_def TimeClip_def toISOString_def empty_world_def)
  from createShortUrl_generated_code[where c = "shorten ''https://example.com'' (Some 30)"
      and f = "?f (Some 30)" and P = demo_platform and w = empty_world]
    shorten_ok[of "Some 30"]
  have 1: "fst (createShortUrl demo_platform (shorten ''https://example.com'' (Some 30)) empty_world) =
      Inr (Response_json (successResponse
            (DCreated ''aaaaaa'' ((baseUrl demo_platform @ ''/'') @ ''aaaaaa'') ''https://example.com''
               (Some 2592000000))
            ''URL shortened successfully'') 201) \<and>
    urls (snd (createShortUrl demo_platform (shorten ''https://example.com'' (Some 30)) empty_world)) =
      urls empty_world @
        [\<lparr>urls_id = Suc (urls_seq empty_world), short_code = ''aaaaaa'',
          original_url = ''https://example.com'',
          user_id = owner_of (shorten ''https://example.com'' (Some 30)), clicks = 0,
          created_at = clock empty_world, expires_at = Some 2592000000\<rparr>]"
    by (simp add: find_unused_empty e)
  from createShortUrl_generated_code[where c = "shorten ''https://example.com'' (Some 30)"
      and f = "?f (Some 30)" and P = demo_platform and w = taken_world]
    shorten_ok[of "Some 30"]
  have 2: "fst (createShortUrl demo_platform (shorten ''https://example.com'' (Some 30)) taken_world) =
     Inr (Response_json (errorResponse ''Failed to generate unique code'') 500)"
    by (simp add: find_unused_taken)
  from 1 2 show ?thesis
    by (simp add: baseUrl_def demo_platform_def empty_world_def)
qed

text \<open>
  The claim as stated fails when the expiration cannot be computed: the first code is
  free, yet the answer is a 500 and not a 201.
\<close>

theorem createShortUrl_generated_code_counterexample:
  "findUrlByShortCode empty_world ''aaaaaa'' = None \<and>
   find (unused empty_world) (generated 10 empty_world) = Some ''aaaaaa'' \<and>
   fst (createShortUrl demo_platform (shorten ''https://example.com'' (Some 1000000000)) empty_world) =
     Inr (Response_json (errorResponse ''Failed to create short URL'') 500)"
proof -
  have "generateShortCode 6 empty_world = (''aaaaaa'', empty_world)"
    by (simp add: generateShortCode_def eval_nat_numeral empty_world_def charAt_def characters_def)
  moreover have free: "findUrlByShortCode empty_world ''aaaaaa'' = None"
    by (simp add: findUrlByShortCode_def empty_world_def)
  moreover have "expiration (clock empty_world) (Some 1000000000) = Inl (RangeError ''Invalid time value'')"
    by (simp add: expiration_def setDate_plus_def TimeClip_def toISOString_def empty_world_def)
  ultimately have "fst (createShortUrl demo_platform (shorten ''https://example.com'' (Some 1000000000)) empty_world) =
     Inr (Response_json (errorResponse ''Failed to create short URL'') 500)"
    using shorten_ok[of "Some 1000000000"]
    by (simp add: createShortUrl_def destructure_def insertShortUrl_def)
  with free find_unused_empty show ?thesis by simp
qed

section \<open>Error responses\<close>

lemma enveloped_failure [simp]: "enveloped plain (Response_json (Failure m sc) st)"
  by (simp add: enveloped_def Response_json_def)

lemma enveloped_errorResponse [simp]: "enveloped plain (Response_json (errorResponse m) st)"
  by (simp add: errorResponse_def)

lemma enveloped_success [simp]: "st < 400 \<Longrightarrow> enveloped plain (Response_json c st)"
  by (simp add: enveloped_def Response_json_def)

lemma enveloped_text [simp]:
  "enveloped True (Response_text ''URL not found'' 404)"
  "enveloped True (Response_text ''URL has expired'' 410)"
  by (simp_all add: enveloped_def Response_text_def)

lemma enveloped_redirect [simp]: "enveloped plain (Response_redirect u 302)"
  by (simp add: enveloped_def Response_redirect_def)

lemma register_enveloped: "answers_enveloped q False (register P)"
  unfolding answers_enveloped_def register_def Let_def
  by (simp split: sum.split option.split prod.split)

lemma login_enveloped: "answers_enveloped q False (login P)"
  unfolding answers_enveloped_def login_def Let_def
  by (simp split: sum.split option.split prod.split)

lemma getProfile_enveloped: "answers_enveloped q False getProfile"
  unfolding answers_enveloped_def getProfile_def
  by (simp split: option.split)

lemma insertShortUrl_enveloped: "fine False (insertShortUrl P c code url days w)"
  unfolding insertShortUrl_def Let_def
  by (simp split: sum.split prod.split)

lemma createShortUrl_enveloped: "answers_enveloped q False (createShortUrl P)"
  unfolding answers_enveloped_def createShortUrl_def Let_def
  by (simp add: insertShortUrl_enveloped split: sum.split option.split prod.split)

lemma redirect_enveloped: "answers_enveloped q True redirect"
  unfolding answers_enveloped_def redirect_def Let_def
  by (simp split: option.split)

lemma getUserUrls_enveloped: "answers_enveloped q False (getUserUrls_handler P)"
  unfolding answers_enveloped_def getUserUrls_handler_def
  by (simp split: option.split)

lemma getAnalytics_enveloped: "answers_enveloped q False getAnalytics"
  unfolding answers_enveloped_def getAnalytics_def Let_def
  by (simp split: option.split)

lemma deleteUrl_enveloped: "answers_enveloped q False deleteUrl_handler"
  unfolding answers_enveloped_def deleteUrl_handler_def Let_def
  by (simp split: option.split prod.split)

lemma health_enveloped: "answers_enveloped q False health"
  unfolding answers_enveloped_def health_def by simp

lemma documentation_enveloped: "answers_enveloped q False documentation"
  unfolding answers_enveloped_def documentation_def by (simp add: enveloped_def)

lemma jsonParser_keeps: "keeps_enveloped jsonParser"
  unfolding keeps_enveloped_def answers_enveloped_def jsonParser_def
  by (simp split: option.split)

lemma authenticate_keeps: "keeps_enveloped (authenticate P)"
  unfolding keeps_enveloped_def answers_enveloped_def authenticate_def Let_def
  by (simp split: option.split)

lemma rateLimit_keeps: "keeps_enveloped (rateLimit m win)"
  unfolding keeps_enveloped_def answers_enveloped_def rateLimit_def Let_def
  by (simp add: enveloped_def split: option.split sum.split)

lemma logger_keeps: "keeps_enveloped logger"
  unfolding keeps_enveloped_def answers_enveloped_def logger_def by simp

lemma cors_keeps: "keeps_enveloped (cors P)"
  unfolding keeps_enveloped_def answers_enveloped_def
proof (intro allI impI)
  fix q plain and nxt :: handler and c :: ctx and w
  assume a: "\<forall>c w. req c = q \<longrightarrow> fine plain (nxt c w)" and q: "req c = q"
  show "fine plain (cors P c nxt w)"
  proof (cases "nxt c w")
    case (Pair x w')
    with a[rule_format, of c w] q show ?thesis
      by (cases x) (simp_all add: cors_def enveloped_def)
  qed
qed

lemma errorHandler_keeps: "keeps_enveloped errorHandler"
  unfolding keeps_enveloped_def answers_enveloped_def
proof (intro allI impI)
  fix q plain and nxt :: handler and c :: ctx and w
  assume a: "\<forall>c w. req c = q \<longrightarrow> fine plain (nxt c w)" and q: "req c = q"
  show "fine plain (errorHandler c nxt w)"
  proof (cases "nxt c w")
    case (Pair x w')
    with a[rule_format, of c w] q show ?thesis
      by (cases x) (simp_all add: errorHandler_def)
  qed
qed

lemma compose_keeps:
  "list_all keeps_enveloped ms \<Longrightarrow> answers_enveloped q plain nxt \<Longrightarrow>
   answers_enveloped q plain (\<lambda>c. compose ms c nxt)"
proof (induction ms)
  case Nil
  then show ?case by (simp add: answers_enveloped_def)
next
  case (Cons m ms)
  then have "answers_enveloped q plain (\<lambda>c. compose ms c nxt)" by simp
  moreover from Cons.prems have "keeps_enveloped m" by simp
  ultimately have "answers_enveloped q plain (\<lambda>c. m c (\<lambda>c'. compose ms c' nxt))"
    unfolding keeps_enveloped_def by blast
  then show ?case by (simp add: answers_enveloped_def)
qed

lemma match_in_routes: "match routes m path = Some (r, bound) \<Longrightarrow> r \<in> set routes"
  by (induction routes) (auto split: if_splits option.splits)

text \<open>
  The router answers as the matched route does: plain text may only come from a route
  that is allowed it.
\<close>

lemma handle_enveloped:
  assumes "\<forall>r \<in> set routes. answers_enveloped q (allowed r) (route_handler r) \<and>
             list_all keeps_enveloped (route_middlewares r)"
  shows "answers_enveloped q
           (case match routes (http_method q) (pathname q) of
              None \<Rightarrow> False | Some (r, bound) \<Rightarrow> allowed r)
           (handle routes)"
  unfolding answers_enveloped_def
proof (intro allI impI)
  fix c :: ctx and w
  assume q: "req c = q"
  show "fine (case match routes (http_method q) (pathname q) of
              None \<Rightarrow> False | Some (r, bound) \<Rightarrow> allowed r) (handle routes c w)"
  proof (cases "match routes (http_method q) (pathname q)")
    case None
    with q show ?thesis by (simp add: handle_def)
  next
    case (Some a)
    obtain rt bound where a: "a = (rt, bound)" by (cases a)
    from Some a have "rt \<in> set routes" by (auto dest: match_in_routes)
    with assms have s: "answers_enveloped q (allowed rt) (route_handler rt)"
      "list_all keeps_enveloped (route_middlewares rt)" by auto
    have "handle routes c w =
        compose (route_middlewares rt) (c\<lparr>params := Some bound\<rparr>) (route_handler rt) w"
      using Some a q by (simp add: handle_compose)
    moreover have "req (c\<lparr>params := Some bound\<rparr>) = q" using q by simp
    ultimately show ?thesis
      using compose_keeps[OF s(2) s(1)] Some a
      by (simp add: answers_enveloped_def)
  qed
qed

lemma router_enveloped:
  "answers_enveloped q
     (case match (router P) (http_method q) (pathname q) of
        None \<Rightarrow> False | Some (r, bound) \<Rightarrow> r = redirect_route)
     (handle (router P))"
  by (rule handle_enveloped)
     (simp add: router_def mk_route_def redirect_route_def register_enveloped login_enveloped
        getProfile_enveloped createShortUrl_enveloped redirect_enveloped getUserUrls_enveloped
        getAnalytics_enveloped deleteUrl_enveloped health_enveloped documentation_enveloped
        jsonParser_keeps authenticate_keeps)

lemma errorHandler_answers: "\<exists>r w'. errorHandler c nxt w = (Inr r, w')"
  by (auto simp: errorHandler_def split: prod.splits sum.splits)

lemma fetch_enveloped:
  "\<exists>r w'. fetch P q w = (Inr r, w') \<and>
     enveloped (\<exists>bound. match (router P) (http_method q) (pathname q) = Some (redirect_route, bound)) r"
proof -
  let ?plain = "case match (router P) (http_method q) (pathname q) of
        None \<Rightarrow> False | Some (r, bound) \<Rightarrow> r = redirect_route"
  have p: "?plain = (\<exists>bound. match (router P) (http_method q) (pathname q) = Some (redirect_route, bound))"
    by (auto split: option.splits)
  have s: "answers_enveloped q ?plain (\<lambda>c. globalMiddlewares P c (handle (router P)))"
    unfolding globalMiddlewares_def
    by (rule compose_keeps)
       (simp_all add: errorHandler_keeps logger_keeps cors_keeps rateLimit_keeps router_enveloped)
  then have f: "fine ?plain (fetch P q w)" by (simp add: answers_enveloped_def fetch_def)
  have "fetch P q w = errorHandler \<lparr>req = q, user = None, params = None, body = None\<rparr>
      (\<lambda>c'. compose [logger, cors P, rateLimit (API_RATE_LIMIT P) (RATE_LIMIT_WINDOW P)] c'
         (handle (router P))) w"
    by (simp add: fetch_def globalMiddlewares_def)
  then obtain r w' where r: "fetch P q w = (Inr r, w')" using errorHandler_answers by metis
  with f have "enveloped ?plain r" by simp
  with r show ?thesis unfolding p by blast
qed

text \<open>
  C1 (as amended). The server answers every request with a response (the error boundary
  catches whatever is thrown), and every response with a status of 400 or more has the
  JSON body \<open>{success: false, error: <string>}\<close> (from \<open>errorResponse\<close> with a
  \<open>statusCode\<close> besides), except the redirect endpoint's 404 and 410, whose bodies are the
  plain texts "URL not found" and "URL has expired": a plain-text error is only ever
  the answer to a request that the router matches to the redirect route \<open>GET /:code\<close>.
\<close>

theorem error_envelope:
  "\<exists>r w'. fetch P q w = (Inr r, w') \<and>
     (400 \<le> status r \<longrightarrow>
        (\<exists>msg sc. content r = Failure msg sc) \<or>
        ((status r = 404 \<and> content r = Text ''URL not found'' \<or>
          status r = 410 \<and> content r = Text ''URL has expired'') \<and>
         (\<exists>bound. match (router P) (http_method q) (pathname q) =
            Some (mk_route ''GET'' ''/:code'' redirect [], bound))))"
proof -
  from fetch_enveloped obtain r w' where r: "fetch P q w = (Inr r, w')"
    "enveloped (\<exists>bound. match (router P) (http_method q) (pathname q) = Some (redirect_route, bound)) r"
    by blast
  from r(2) have "400 \<le> status r \<longrightarrow>
        (\<exists>msg sc. content r = Failure msg sc) \<or>
        ((status r = 404 \<and> content r = Text ''URL not found'' \<or>
          status r = 410 \<and> content r = Text ''URL has expired'') \<and>
         (\<exists>bound. match (router P) (http_method q) (pathname q) =
            Some (mk_route ''GET'' ''/:code'' redirect [], bound)))"
    unfolding enveloped_def redirect_route_def by auto
  with r(1) show ?thesis by blast
qed

text \<open>Requests to the sample server, evaluated through the whole pipeline.\<close>

lemmas app_defs =
  fetch_def globalMiddlewares_def errorHandler_def logger_def cors_def rateLimit_def
  client_ip_def handle_def router_def mk_route_def matchPath_def segments_def
  startsWith_colon_def demo_request_def new_ctx_def empty_world_def Let_def

lemma fetch_missing_code:
  "answer (fetch demo_platform (demo_request ''GET'' ''/nothing'' [] None) empty_world) =
     Some (404, Text ''URL not found'')"
  by (simp add: app_defs redirect_def code_param_def findUrlByShortCode_def Response_text_def)

lemma fetch_expired_code:
  "answer (fetch demo_platform (demo_request ''GET'' ''/anon01'' [] None) (demo_world\<lparr>clock := 2000\<rparr>)) =
     Some (410, Text ''URL has expired'')"
  by (simp add: app_defs redirect_def code_param_def findUrlByShortCode_def Response_text_def
        demo_world_def github_row_def anon_row_def)

lemma fetch_no_token:
  "answer (fetch demo_platform (demo_request ''GET'' ''/api/urls'' [] None) empty_world) =
     Some (401, Failure ''No token provided'' None)"
  by (simp add: app_defs authenticate_def extractTokenFromHeader_def Response_json_def)

text \<open>
  A request without a token gets a JSON error; a redirect to an absent code gets a plain
  text, and is matched to the redirect route.
\<close>

theorem error_envelope_witness:
  "(\<exists>r w'. fetch demo_platform (demo_request ''GET'' ''/api/urls'' [] None) empty_world = (Inr r, w') \<and>
      400 \<le> status r \<and> content r = Failure ''No token provided'' None) \<and>
   (\<exists>r w'. fetch demo_platform (demo_request ''GET'' ''/nothing'' [] None) empty_world = (Inr r, w') \<and>
      400 \<le> status r \<and> content r = Text ''URL not found'') \<and>
   (\<exists>bound. match (router demo_platform) ''GET'' ''/nothing'' =
      Some (mk_route ''GET'' ''/:code'' redirect [], bound))"
proof -
  from error_envelope[of demo_platform "demo_request ''GET'' ''/api/urls'' [] None" empty_world]
  obtain r w' where 1:
    "fetch demo_platform (demo_request ''GET'' ''/api/urls'' [] None) empty_world = (Inr r, w')"
    by blast
  with fetch_no_token have "status r = 401" "content r = Failure ''No token provided'' None"
    by simp_all
  with 1 have a: "\<exists>r w'. fetch demo_platform (demo_request ''GET'' ''/api/urls'' [] None) empty_world =
      (Inr r, w') \<and> 400 \<le> status r \<and> content r = Failure ''No token provided'' None"
    by simp
  from error_envelope[of demo_platform "demo_request ''GET'' ''/nothing'' [] None" empty_world]
  obtain r2 w2 where 2:
    "fetch demo_platform (demo_request ''GET'' ''/nothing'' [] None) empty_world = (Inr r2, w2)"
    and imp: "400 \<le> status r2 \<longrightarrow>
        (\<exists>msg sc. content r2 = Failure msg sc) \<or>
        ((status r2 = 404 \<and> content r2 = Text ''URL not found'' \<or>
          status r2 = 410 \<and> content r2 = Text ''URL has expired'') \<and>
         (\<exists>bound. match (router demo_platform)
              (http_method (demo_request ''GET'' ''/nothing'' [] None))
              (pathname (demo_request ''GET'' ''/nothing'' [] None)) =
            Some (mk_route ''GET'' ''/:code'' redirect [], bound)))"
    by blast
  from 2 fetch_missing_code have s: "status r2 = 404" "content r2 = Text ''URL not found''"
    by simp_all
  with 2 have b: "\<exists>r w'. fetch demo_platform (demo_request ''GET'' ''/nothing'' [] None) empty_world =
      (Inr r, w') \<and> 400 \<le> status r \<and> content r = Text ''URL not found''"
    by simp
  from imp s have "\<exists>bound. match (router demo_platform)
              (http_method (demo_request ''GET'' ''/nothing'' [] None))
              (pathname (demo_request ''GET'' ''/nothing'' [] None)) =
            Some (mk_route ''GET'' ''/:code'' redirect [], bound)"
    by simp
  then have c: "\<exists>bound. match (router demo_platform) ''GET'' ''/nothing'' =
      Some (mk_route ''GET'' ''/:code'' redirect [], bound)"
    by (simp add: demo_request_def)
  from a b c show ?thesis by blast
qed

text \<open>
  The claim as stated fails at the redirect endpoint: its 404 and its 410 carry a plain
  text and no JSON object.
\<close>

theorem error_envelope_counterexample:
  "answer (fetch demo_platform (demo_request ''GET'' ''/nothing'' [] None) empty_world) =
     Some (404, Text ''URL not found'') \<and>
   answer (fetch demo_platform (demo_request ''GET'' ''/anon01'' [] None) (demo_world\<lparr>clock := 2000\<rparr>)) =
     Some (410, Text ''URL has expired'')"
  using fetch_missing_code fetch_expired_code by simp

section \<open>Registration\<close>

text \<open>
  The body parser hands over without a body when the request declares no JSON content
  type. \<open>register\<close> then throws while destructuring, before its first check; with a body
  that is an object, a missing field is answered with a 400.
\<close>

lemma jsonParser_without_content_type:
  "headers (req c) ''content-type'' = None \<Longrightarrow> jsonParser c nxt w = nxt c w"
  by (simp add: jsonParser_def)

lemma register_unset_body:
  "body c = None \<or> body c = Some JNull \<Longrightarrow>
   register P c w = (Inl (TypeError ''Right side of assignment cannot be destructured''), w)"
  by (auto simp: register_def destructure_def)

lemma register_missing_field:
  "body c = Some (JObject f) \<Longrightarrow>
   \<not> truthy (username_field f) \<or> \<not> truthy (email_field f) \<or> \<not> truthy (password_field f) \<Longrightarrow>
   register P c w = (Inr (Response_json (errorResponse ''All fields are required'') 400), w)"
  by (auto simp: register_def destructure_def)

lemma fetch_register_no_body:
  "answer (fetch demo_platform (demo_request ''POST'' ''/api/auth/register'' [] None) empty_world) =
     Some (500, Failure ''Right side of assignment cannot be destructured'' None)"
  by (simp add: app_defs jsonParser_def register_def destructure_def Response_json_def)

text \<open>
  C2. A registration request without a content type and without a body: the route's
  body parser and controller throw a \<open>TypeError\<close>, and the server answers 500 with the
  error's message, not 400 with a validation message.
\<close>

theorem register_without_body:
  "jsonParser (new_ctx (demo_request ''POST'' ''/api/auth/register'' [] None)) (register demo_platform)
     empty_world =
     (Inl (TypeError ''Right side of assignment cannot be destructured''), empty_world) \<and>
   answer (fetch demo_platform (demo_request ''POST'' ''/api/auth/register'' [] None) empty_world) =
     Some (500, Failure ''Right side of assignment cannot be destructured'' None)"
  using fetch_register_no_body
  by (simp add: jsonParser_without_content_type register_unset_body new_ctx_def demo_request_def)

text \<open>The status of that answer is 500.\<close>

theorem register_without_body_witness:
  "map_option fst
     (answer (fetch demo_platform (demo_request ''POST'' ''/api/auth/register'' [] None) empty_world)) =
     Some 500"
  using register_without_body by simp

end
